theory Spec2Isabelle
  imports Complex_Main
begin

section \<open>Errors raised by \<open>datapoint.py\<close>\<close>

text \<open>
  Every \<open>raise\<close> of the module is a \<open>ValueError\<close> told apart by its message; the
  constructors below name the message. The remaining constructors are the exceptions
  that numpy, scipy or Python raise by themselves on the paths modelled here.
\<close>

datatype error =
    NoAnglesAvailable     \<comment> \<open>ValueError: None of the specified angles are available in this dataset\<close>
  | UnknownSideSelector   \<comment> \<open>ValueError: Unknown side selector\<close>
  | UnknownSelection      \<comment> \<open>ValueError: Unknown selection\<close>
  | NoMeasurements        \<comment> \<open>ValueError: Subject id has no anthropomorphic measurements\<close>
  | NoDataAvailable       \<comment> \<open>ValueError: Subject id has no data available for selection\<close>
  | ComplexDtypeRequired  \<comment> \<open>ValueError: An HRTF in the complex domain requires a complex dtype\<close>
  | AttributeError        \<comment> \<open>a ValueError object has no attribute astype\<close>
  | IndexError            \<comment> \<open>index out of bounds, or a boolean index of the wrong length\<close>
  | BroadcastError        \<comment> \<open>numpy ValueError: operands or shapes could not be broadcast\<close>
  | EmptyConcatenate      \<comment> \<open>numpy ValueError: need at least one array to concatenate\<close>
  | FftLengthError        \<comment> \<open>scipy ValueError: invalid number of data points\<close>
  | FlipDimensionError    \<comment> \<open>numpy ValueError: input of flipud or fliplr has too few dimensions\<close>
  | ZeroSizeReduction     \<comment> \<open>numpy ValueError: zero-size array to reduction operation maximum\<close>
  | ConcatenateError      \<comment> \<open>numpy ValueError: the input array dimensions must match\<close>
  | AmbiguousTruthValue   \<comment> \<open>ValueError: the truth value of an array with several elements\<close>

section \<open>Python and numpy primitives\<close>

definition startswith :: "string \<Rightarrow> string \<Rightarrow> bool" where
  "startswith s p \<longleftrightarrow> take (length p) s = p"

definition endswith :: "string \<Rightarrow> string \<Rightarrow> bool" where
  "endswith s p \<longleftrightarrow> length p \<le> length s \<and> drop (length s - length p) s = p"

text \<open>
  \<open>np.isclose(a, b)\<close> with the default tolerances \<open>rtol = 1e-5\<close> and \<open>atol = 1e-8\<close>.
  Angles are the real numbers that the floats denote (no NaN, no rounding).
\<close>

definition isclose :: "real \<Rightarrow> real \<Rightarrow> bool" where
  "isclose a b \<longleftrightarrow> \<bar>a - b\<bar> \<le> 1 / 10 ^ 8 + 1 / 10 ^ 5 * \<bar>b\<bar>"

text \<open>\<open>bs.nonzero()[0]\<close>: the positions of the true entries, ascending.\<close>

definition nonzero :: "bool list \<Rightarrow> nat list" where
  "nonzero bs = filter (\<lambda>i. bs ! i) [0..<length bs]"

text \<open>\<open>xs[bs]\<close> for a boolean array \<open>bs\<close> as long as \<open>xs\<close>.\<close>

definition compress :: "bool list \<Rightarrow> 'a list \<Rightarrow> 'a list" where
  "compress bs xs = map snd (filter fst (zip bs xs))"

text \<open>
  \<open>np.argmax\<close> of a boolean array: the first true position, and 0 when there is none.
  (numpy raises on an empty array; every call below is on a non-empty one.)
\<close>

definition argmax :: "bool list \<Rightarrow> nat" where
  "argmax bs = (if list_ex id bs then length (takeWhile Not bs) else 0)"

section \<open>Grid Selector: \<open>SofaDataPoint._hrir_select_angles\<close>\<close>

text \<open>
  Lines 78--83 and 85--90: the candidate mask of one axis. \<open>None\<close> selects everything;
  otherwise an angle of the grid is a candidate when it is close to some requested angle,
  and a request without any candidate raises.
\<close>

definition select_indices :: "real list option \<Rightarrow> real list \<Rightarrow> error + bool list" where
  "select_indices angles all_angles =
     (case angles of
        None \<Rightarrow> Inr (replicate (length all_angles) True)
      | Some req \<Rightarrow>
          (let sel = map (\<lambda>angle. list_ex (\<lambda>b. isclose angle b) req) all_angles
           in if \<not> list_ex id sel then Inl NoAnglesAvailable else Inr sel))"

text \<open>
  The position mask is an array of shape (rows, columns, radii), true where a cell is
  missing. Boolean indexing raises when the index and the axis differ in length.
\<close>

type_synonym mask = "bool list list list"

definition hrir_select_angles ::
  "real list option \<Rightarrow> real list option \<Rightarrow> real list \<Rightarrow> real list \<Rightarrow> mask
     \<Rightarrow> error + (nat list \<times> nat list)" where
  "hrir_select_angles row_angles column_angles all_row_angles all_column_angles position_mask =
     (case select_indices row_angles all_row_angles of
        Inl e \<Rightarrow> Inl e
      | Inr select_row_indices \<Rightarrow>
     (case select_indices column_angles all_column_angles of
        Inl e \<Rightarrow> Inl e
      | Inr select_column_indices \<Rightarrow>
          if length select_row_indices \<noteq> length position_mask
             \<or> list_ex (\<lambda>row. length row \<noteq> length select_column_indices) position_mask
          then Inl IndexError
          else
            (let selected_position_mask =
                   map (compress select_column_indices) (compress select_row_indices position_mask);
                 keep_row_indices =
                   map (\<lambda>row. \<not> list_all (list_all id) row) selected_position_mask;
                 keep_column_indices =
                   map (\<lambda>j. \<not> list_all (\<lambda>row. list_all id (row ! j)) selected_position_mask)
                     [0..<length (nonzero select_column_indices)];
                 row_indices = compress keep_row_indices (nonzero select_row_indices);
                 column_indices = compress keep_column_indices (nonzero select_column_indices)
             in Inr (row_indices, column_indices))))"

section \<open>Position Reconciler: \<open>SofaDataPoint._map_sofa_position_order_to_matrix\<close>\<close>

text \<open>
  \<open>np.round(x, decimals)\<close> scales, rounds half to even and scales back. Coordinates are
  the real numbers that the floats denote.
\<close>

definition rint :: "real \<Rightarrow> int" where
  "rint x =
     (let f = \<lfloor>x\<rfloor>; d = x - of_int f
      in if d < 1 / 2 then f else if 1 / 2 < d then f + 1 else if even f then f else f + 1)"

definition np_round :: "nat \<Rightarrow> real \<Rightarrow> real" where
  "np_round decimals x = of_int (rint (x * 10 ^ decimals)) / 10 ^ decimals"

text \<open>
  Modelled from the spec: \<open>wrap_closed_open_interval\<close> lives in \<open>util.py\<close>, which is
  not part of the sources at hand. The spec says it ``maps any real x into [lo, hi) by
  modular arithmetic''.
\<close>

definition wrap_closed_open_interval :: "real \<Rightarrow> real \<Rightarrow> real \<Rightarrow> real" where
  "wrap_closed_open_interval x lower upper =
     (x - lower) - (upper - lower) * of_int \<lfloor>(x - lower) / (upper - lower)\<rfloor> + lower"

text \<open>\<open>np.unique\<close>: the distinct values, ascending.\<close>

definition np_unique :: "real list \<Rightarrow> real list" where
  "np_unique xs = sort (remdups xs)"

text \<open>
  A position is (row angle, column angle, radius): the rows of \<open>positions\<close> as they are
  after lines 106--114 (file access and the coordinate conversions of \<open>util.py\<close>).
\<close>

type_synonym position = "real \<times> real \<times> real"

text \<open>Lines 119--120.\<close>

definition quantise :: "nat \<Rightarrow> position list \<Rightarrow> position list" where
  "quantise quantisation positions =
     map (\<lambda>(a, b, r). (wrap_closed_open_interval (np_round quantisation a) (- 180) 180,
                        np_round quantisation b, np_round quantisation r)) positions"

text \<open>\<open>np.argmax(v == unique)\<close> of line 126.\<close>

definition index_of :: "real \<Rightarrow> real list \<Rightarrow> nat" where
  "index_of v unique = argmax (map (\<lambda>u. v = u) unique)"

text \<open>
  An assignment \<open>m[r, c, k] = v\<close> to a cell of a three-dimensional array, and what it
  means for a nested list to have the shape (R, C, K).
\<close>

definition update3 :: "'a list list list \<Rightarrow> nat \<Rightarrow> nat \<Rightarrow> nat \<Rightarrow> 'a \<Rightarrow> 'a list list list" where
  "update3 m r c k v = m[r := (m ! r)[c := (m ! r ! c)[k := v]]]"

definition wf_mask :: "nat \<Rightarrow> nat \<Rightarrow> nat \<Rightarrow> 'a list list list \<Rightarrow> bool" where
  "wf_mask R C K m \<longleftrightarrow>
     length m = R \<and> (\<forall>r<R. length (m ! r) = C \<and> (\<forall>c<C. length (m ! r ! c) = K))"

text \<open>Lines 129--130: an all-true mask, set false at every cell of the position map.\<close>

definition clear_cell :: "nat \<times> nat \<times> nat \<Rightarrow> mask \<Rightarrow> mask" where
  "clear_cell cell m = (case cell of (r, c, k) \<Rightarrow> update3 m r c k False)"

definition clear_cells :: "(nat \<times> nat \<times> nat) list \<Rightarrow> nat \<Rightarrow> nat \<Rightarrow> nat \<Rightarrow> mask" where
  "clear_cells cells R C K = fold clear_cell cells (replicate R (replicate C (replicate K True)))"

text \<open>
  The pole bookkeeping of lines 133--146 at column \<open>c\<close>. \<open>position_mask[:, c]\<close> has shape
  (rows, radii); the sum over axis 0 gives one boolean per radius, while \<open>argmax()\<close>
  without an axis is the position in the row-major flattened array.
\<close>

definition mask_column :: "mask \<Rightarrow> nat \<Rightarrow> bool list list" where
  "mask_column m c = map (\<lambda>row. row ! c) m"

definition single_mask :: "bool list list \<Rightarrow> nat \<Rightarrow> bool list" where
  "single_mask col K = map (\<lambda>k. length (filter (\<lambda>row. \<not> row ! k) col) = 1) [0..<K]"

definition pole_idx :: "bool list list \<Rightarrow> nat" where
  "pole_idx col = argmax (concat (map (map Not) col))"

definition mark_pole :: "bool list \<Rightarrow> mask \<Rightarrow> nat \<Rightarrow> mask" where
  "mark_pole single m c =
     map (\<lambda>row. row[c := map (\<lambda>(s, missing). if s then False else missing)
                            (zip single (row ! c))]) m"

record grid =
  unique_row_angles :: "real list"
  unique_column_angles :: "real list"
  unique_radii :: "real list"
  position_mask :: mask
  position_map :: "(nat \<times> nat \<times> nat) list"
  single_start_mask :: "bool list option"
  start_pole_idx :: nat
  single_end_mask :: "bool list option"
  end_pole_idx :: nat

text \<open>
  The scalar \<open>False\<close> that a pole mask is when the pole is absent is \<open>None\<close>. With no
  position at all the arrays of unique values are empty and line 133 raises.
\<close>

definition map_sofa_position_order_to_matrix :: "nat \<Rightarrow> position list \<Rightarrow> error + grid" where
  "map_sofa_position_order_to_matrix quantisation positions =
     (let quantised_positions = quantise quantisation positions;
          rows = np_unique (map fst quantised_positions);
          cols = np_unique (map (\<lambda>p. fst (snd p)) quantised_positions);
          radii = np_unique (map (\<lambda>p. snd (snd p)) quantised_positions);
          pmap = map (\<lambda>(row_angle, column_angle, radius).
                        (index_of row_angle rows, index_of column_angle cols, index_of radius radii))
                   quantised_positions;
          mask0 = clear_cells pmap (length rows) (length cols) (length radii)
      in if cols = [] then Inl IndexError
         else
           (let last_c = length cols - 1;
                end_present = isclose (last cols) 90;
                single_end = (if end_present
                              then Some (single_mask (mask_column mask0 last_c) (length radii))
                              else None);
                end_idx = (if end_present then pole_idx (mask_column mask0 last_c) else 0);
                mask1 = (case single_end of Some s \<Rightarrow> mark_pole s mask0 last_c | None \<Rightarrow> mask0);
                start_present = isclose (hd cols) (- 90);
                single_start = (if start_present
                                then Some (single_mask (mask_column mask1 0) (length radii))
                                else None);
                start_idx = (if start_present then pole_idx (mask_column mask1 0) else 0);
                mask2 = (case single_start of Some s \<Rightarrow> mark_pole s mask1 0 | None \<Rightarrow> mask1)
            in Inr \<lparr>unique_row_angles = rows, unique_column_angles = cols, unique_radii = radii,
                     position_mask = mask2, position_map = pmap,
                     single_start_mask = single_start, start_pole_idx = start_idx,
                     single_end_mask = single_end, end_pole_idx = end_idx\<rparr>))"

section \<open>Signal Materializer: \<open>SofaDataPoint.hrir\<close>\<close>

text \<open>
  The two layouts are the subclasses \<open>SofaSphericalDataPoint\<close> and
  \<open>SofaInterauralDataPoint\<close>; \<open>self.dtype\<close> is one of numpy's floating types, with its
  \<open>np.finfo(dtype)\<close>. Samples are the real numbers that the floats denote.
\<close>

datatype layout = Spherical | Interaural

datatype dtype = Float16 | Float32 | Float64 | Complex64 | Complex128

definition complexfloating :: "dtype \<Rightarrow> bool" where
  "complexfloating t \<longleftrightarrow> t = Complex64 \<or> t = Complex128"

text \<open>
  \<open>np.finfo(dtype)\<close> of a complex type is that of its parts. The significand has
  \<open>nmant + 1\<close> bits, \<open>minexp\<close> is the exponent of the smallest normal number, and
  \<open>resolution\<close> is \<open>10 ** -precision\<close> (precision = 3, 6, 15 decimal digits) as a
  number of the type itself, that is the float nearest to it.
\<close>

definition significand_bits :: "dtype \<Rightarrow> nat" where
  "significand_bits t =
     (case t of Float16 \<Rightarrow> 11 | Float32 \<Rightarrow> 24 | Float64 \<Rightarrow> 53
      | Complex64 \<Rightarrow> 24 | Complex128 \<Rightarrow> 53)"

definition minexp :: "dtype \<Rightarrow> int" where
  "minexp t =
     (case t of Float16 \<Rightarrow> - 14 | Float32 \<Rightarrow> - 126 | Float64 \<Rightarrow> - 1022
      | Complex64 \<Rightarrow> - 126 | Complex128 \<Rightarrow> - 1022)"

definition resolution :: "dtype \<Rightarrow> real" where
  "resolution t =
     (case t of
        Float16 \<Rightarrow> 1049 / 1048576
      | Float32 \<Rightarrow> 8796093 / 8796093022208
      | Float64 \<Rightarrow> 2535301200456459 / 2535301200456458802993406410752
      | Complex64 \<Rightarrow> 8796093 / 8796093022208
      | Complex128 \<Rightarrow> 2535301200456459 / 2535301200456458802993406410752)"

text \<open>
  The rounding of a number to a float with a significand of \<open>p\<close> bits and smallest
  exponent \<open>emin\<close>: to the nearest multiple of the unit in the last place, ties to the
  even significand; below the smallest normal number the unit stays that of the
  smallest exponent. (Overflow to infinity is left out.) \<open>as_float\<close> is the rounding
  to a numpy type. The arithmetic before a cast is taken as exact.
\<close>

definition float_round :: "nat \<Rightarrow> int \<Rightarrow> real \<Rightarrow> real" where
  "float_round p emin x =
     (if x = 0 then 0
      else (let e = max \<lfloor>log 2 \<bar>x\<bar>\<rfloor> emin; ulp = 2 powr (of_int e - (real p - 1))
            in of_int (rint (x / ulp)) * ulp))"

definition as_float :: "dtype \<Rightarrow> real \<Rightarrow> real" where
  "as_float t x = float_round (significand_bits t) (minexp t) x"

text \<open>
  A SOFA file holds one source position and one impulse response per ear for each
  measurement (the dimension M is shared by \<open>SourcePosition\<close> and \<open>Data.IR\<close>): a list
  of (position, left, right). The positions are those that reach line 119.
\<close>

type_synonym measurement = "position \<times> real list \<times> real list"

text \<open>
  An element of a result is a real or a complex number; a masked entry of a masked array
  is \<open>None\<close>. A result array is its shape and its elements in row-major order.
\<close>

datatype val = Re_val real | Cx_val complex

record ndarray =
  shape :: "nat list"
  elems :: "val option list"

type_synonym matrix = "real list list list list"

text \<open>A matrix of shape (R, C, K, L): a grid of cells, each an impulse response of L samples.\<close>

definition wf_matrix :: "nat \<Rightarrow> nat \<Rightarrow> nat \<Rightarrow> nat \<Rightarrow> matrix \<Rightarrow> bool" where
  "wf_matrix R C K L m \<longleftrightarrow>
     wf_mask R C K m \<and> (\<forall>r<R. \<forall>c<C. \<forall>k<K. length (m ! r ! c ! k) = L)"

text \<open>
  Line 205: \<open>np.empty\<close> leaves the matrix uninitialised; \<open>uninit\<close> is whatever the
  memory holds at each index.
\<close>

definition empty_matrix ::
  "(nat \<times> nat \<times> nat \<times> nat \<Rightarrow> real) \<Rightarrow> nat \<Rightarrow> nat \<Rightarrow> nat \<Rightarrow> nat \<Rightarrow> matrix" where
  "empty_matrix uninit R C K L =
     map (\<lambda>r. map (\<lambda>c. map (\<lambda>k. map (\<lambda>l. uninit (r, c, k, l)) [0..<L]) [0..<K]) [0..<C]) [0..<R]"

text \<open>Line 206: the scatter, in the order of the measurements (the last write wins).\<close>

definition put_cell :: "(nat \<times> nat \<times> nat) \<times> real list \<Rightarrow> matrix \<Rightarrow> matrix" where
  "put_cell entry m = (case entry of ((r, c, k), x) \<Rightarrow> update3 m r c k x)"

definition scatter :: "(nat \<times> nat \<times> nat) list \<Rightarrow> real list list \<Rightarrow> matrix \<Rightarrow> matrix" where
  "scatter pmap hrirs m = fold put_cell (zip pmap hrirs) m"

text \<open>
  Lines 207 and 208 at column \<open>c\<close>:
  \<open>hrir_matrix[:, c] = np.where(single, hrir_matrix[idx, c], hrir_matrix[:, c])\<close>.
  The row index is checked first. A scalar \<open>False\<close> keeps the column. A mask of shape
  (K) is broadcast against shapes (K, L) and (R, K, L), so it lines up with the
  sample axis: this needs K = 1 or K = L, and any other combination raises.
\<close>

definition replicate_pole ::
  "bool list option \<Rightarrow> nat \<Rightarrow> nat \<Rightarrow> nat \<Rightarrow> matrix \<Rightarrow> error + matrix" where
  "replicate_pole single idx c L m =
     (if length m \<le> idx then Inl IndexError
      else case single of
          None \<Rightarrow> Inr m
        | Some s \<Rightarrow>
            (let K = length s in
             if K \<noteq> 1 \<and> K \<noteq> L then Inl BroadcastError
             else Inr (map (\<lambda>row. row[c :=
                    map (\<lambda>k. map (\<lambda>l. if s ! (if K = 1 then 0 else l)
                                       then m ! idx ! c ! k ! l else row ! c ! k ! l) [0..<L])
                      [0..<K]]) m)))"

text \<open>
  Lines 210--217: \<open>a[row_indices][:, column_indices]\<close> on an array with R rows and C
  columns; \<open>None\<close> is the full slice, an index beyond the axis raises.
\<close>

definition select_cells ::
  "nat list option \<Rightarrow> nat list option \<Rightarrow> nat \<Rightarrow> nat \<Rightarrow> 'a list list \<Rightarrow> error + 'a list list" where
  "select_cells row_indices column_indices R C a =
     (let ri = (case row_indices of None \<Rightarrow> [0..<R] | Some is \<Rightarrow> is);
          ci = (case column_indices of None \<Rightarrow> [0..<C] | Some js \<Rightarrow> js)
      in if list_ex (\<lambda>i. R \<le> i) ri \<or> list_ex (\<lambda>j. C \<le> j) ci then Inl IndexError
         else Inr (map (\<lambda>i. map (\<lambda>j. a ! i ! j) ci) ri))"

text \<open>\<open>scipy.fft.rfft\<close> along the last axis: the first L div 2 + 1 bins of the DFT.\<close>

definition rfft :: "real list \<Rightarrow> complex list" where
  "rfft x =
     map (\<lambda>k. \<Sum>n\<leftarrow>[0..<length x].
                 of_real (x ! n) * cis (- 2 * pi * real k * real n / real (length x)))
       [0..<length x div 2 + 1]"

text \<open>
  \<open>np.ma.masked_where\<close> of lines 219 and 221: the mask of a cell covers all its
  samples (or bins).
\<close>

definition masked_where :: "bool \<Rightarrow> 'a list \<Rightarrow> 'a option list" where
  "masked_where missing xs = map (\<lambda>x. if missing then None else Some x) xs"

definition mask_cells :: "mask \<Rightarrow> 'a list list list list \<Rightarrow> 'a option list list list list" where
  "mask_cells sel_mask a =
     map (\<lambda>(mrow, row). map (\<lambda>(mcol, col). map (\<lambda>(missing, x). masked_where missing x)
                                              (zip mcol col)) (zip mrow row)) (zip sel_mask a)"

definition map_cells :: "('a \<Rightarrow> 'b) \<Rightarrow> 'a list list list list \<Rightarrow> 'b list list list list" where
  "map_cells f a = map (map (map (map f))) a"

definition flatten :: "'a list list list list \<Rightarrow> 'a list" where
  "flatten a = concat (concat (concat a))"

text \<open>
  Lines 228--229. The maximum of a masked array is taken over the entries that are not
  masked, and raises on an array without elements; when every entry is masked the
  result stays masked. \<open>np.log10\<close> of a masked array masks the entries outside its
  domain, so an entry whose clipped magnitude is not positive has no dB value.
\<close>

definition unmasked :: "'a option list \<Rightarrow> 'a list" where
  "unmasked xs = concat (map (\<lambda>x. case x of None \<Rightarrow> [] | Some v \<Rightarrow> [v]) xs)"

definition min_magnitude :: "dtype \<Rightarrow> real option list \<Rightarrow> real" where
  "min_magnitude t magnitudes = Max (set (unmasked magnitudes)) * resolution t"

definition db_value :: "real \<Rightarrow> real \<Rightarrow> real option" where
  "db_value lowest magnitude =
     (let clipped = max magnitude lowest
      in if clipped \<le> 0 then None else Some (20 * log 10 clipped))"

definition magnitude_db ::
  "dtype \<Rightarrow> real option list list list list \<Rightarrow> error + real option list list list list" where
  "magnitude_db t magnitudes =
     (if flatten magnitudes = [] then Inl ZeroSizeReduction
      else if unmasked (flatten magnitudes) = [] then Inr magnitudes
      else Inr (map_cells (\<lambda>x. case x of None \<Rightarrow> None
                                | Some m \<Rightarrow> db_value (min_magnitude t (flatten magnitudes)) m)
                  magnitudes))"

text \<open>
  Lines 218--235. An unknown domain leaves a \<open>ValueError\<close> object in \<open>hrir\<close> instead of
  raising it (\<open>None\<close> here); line 238 then fails on it.
\<close>

definition transform ::
  "dtype \<Rightarrow> string \<Rightarrow> nat \<Rightarrow> mask \<Rightarrow> matrix
     \<Rightarrow> error + val option list list list list option" where
  "transform t domain L sel_mask selected_hrir_matrix =
     (if domain = ''time''
      then Inr (Some (map_cells (map_option Re_val) (mask_cells sel_mask selected_hrir_matrix)))
      else if L = 0 then Inl FftLengthError
      else
        (let selected_hrtf_matrix =
               mask_cells sel_mask (map (map (map rfft)) selected_hrir_matrix)
         in if domain = ''complex''
            then Inr (Some (map_cells (map_option Cx_val) selected_hrtf_matrix))
            else if startswith domain ''magnitude''
            then
              (let magnitudes = map_cells (map_option cmod) selected_hrtf_matrix
               in if endswith domain ''_db''
                  then (case magnitude_db t magnitudes of
                          Inl e \<Rightarrow> Inl e
                        | Inr db \<Rightarrow> Inr (Some (map_cells (map_option Re_val) db)))
                  else Inr (Some (map_cells (map_option Re_val) magnitudes)))
            else if domain = ''phase''
            then Inr (Some (map_cells (map_option (\<lambda>z. Re_val (Arg z))) selected_hrtf_matrix))
            else Inr None))"

text \<open>
  Line 238: the cast rounds to the output type (a complex number loses its imaginary
  part in a real type) and keeps the mask; \<open>np.squeeze\<close> drops every axis of length 1.
\<close>

definition astype :: "dtype \<Rightarrow> val \<Rightarrow> val" where
  "astype t v =
     (case v of
        Re_val x \<Rightarrow>
          if complexfloating t then Cx_val (Complex (as_float t x) 0)
          else Re_val (as_float t x)
      | Cx_val z \<Rightarrow>
          if complexfloating t
          then Cx_val (Complex (as_float t (Re z)) (as_float t (Im z)))
          else Re_val (as_float t (Re z)))"

definition squeeze :: "ndarray \<Rightarrow> ndarray" where
  "squeeze a = a\<lparr>shape := filter (\<lambda>d. d \<noteq> 1) (shape a)\<rparr>"

text \<open>
  Lines 239--249 on row-major data: the blocks along the first axis, \<open>np.flipud\<close>,
  \<open>np.fliplr\<close>, and \<open>np.ma.row_stack((a[0:1], np.flipud(a[1:])))\<close>. The latter raises
  on a 0-d array (indexing); on a 1-d array \<open>row_stack\<close> turns both parts into rows,
  which must then be equally long.
\<close>

definition blocks :: "nat \<Rightarrow> 'a list \<Rightarrow> 'a list list" where
  "blocks n xs = map (\<lambda>i. take (length xs div n) (drop (i * (length xs div n)) xs)) [0..<n]"

definition flipud :: "ndarray \<Rightarrow> error + ndarray" where
  "flipud a =
     (case shape a of
        [] \<Rightarrow> Inl FlipDimensionError
      | d0 # rest \<Rightarrow> Inr (a\<lparr>elems := concat (rev (blocks d0 (elems a)))\<rparr>))"

definition fliplr :: "ndarray \<Rightarrow> error + ndarray" where
  "fliplr a =
     (case shape a of
        d0 # d1 # rest \<Rightarrow>
          Inr (a\<lparr>elems := concat (map (\<lambda>b. concat (rev (blocks d1 b))) (blocks d0 (elems a)))\<rparr>)
      | _ \<Rightarrow> Inl FlipDimensionError)"

definition hold_first_flip_rest :: "ndarray \<Rightarrow> error + ndarray" where
  "hold_first_flip_rest a =
     (case shape a of
        [] \<Rightarrow> Inl IndexError
      | [d0] \<Rightarrow>
          if d0 = 0 \<or> d0 = 2 then Inr \<lparr>shape = [2, d0 div 2], elems = elems a\<rparr>
          else Inl ConcatenateError
      | d0 # d1 # rest \<Rightarrow>
          Inr (a\<lparr>elems := (case blocks d0 (elems a) of
                              [] \<Rightarrow> []
                            | b # bs \<Rightarrow> concat (b # rev bs))\<rparr>))"

definition mirror ::
  "layout \<Rightarrow> real list \<Rightarrow> nat list option \<Rightarrow> ndarray \<Rightarrow> error + ndarray" where
  "mirror lay unique_rows row_indices a =
     (case lay of
        Spherical \<Rightarrow>
          (let selected_azimuths =
                 (case row_indices of None \<Rightarrow> unique_rows
                  | Some is \<Rightarrow> map (\<lambda>i. unique_rows ! i) is)
           in if selected_azimuths = [] then Inl IndexError
              else if isclose (hd selected_azimuths) (- 180) then hold_first_flip_rest a
              else flipud a)
      | Interaural \<Rightarrow> fliplr a)"

definition hrir ::
  "layout \<Rightarrow> dtype \<Rightarrow> nat \<Rightarrow> (nat \<times> nat \<times> nat \<times> nat \<Rightarrow> real) \<Rightarrow> measurement list
     \<Rightarrow> string \<Rightarrow> string \<Rightarrow> nat list option \<Rightarrow> nat list option \<Rightarrow> error + ndarray" where
  "hrir lay t quantisation uninit file side domain row_indices column_indices =
     (let hrirs = map (\<lambda>(p, left, right). if endswith side ''left'' then left else right) file
      in case map_sofa_position_order_to_matrix quantisation (map fst file) of
           Inl e \<Rightarrow> Inl e
         | Inr g \<Rightarrow>
     (let R = length (unique_row_angles g);
          C = length (unique_column_angles g);
          K = length (unique_radii g);
          L = length (hd hrirs);
          hrir_matrix = scatter (position_map g) hrirs (empty_matrix uninit R C K L)
      in case replicate_pole (single_start_mask g) (start_pole_idx g) 0 L hrir_matrix of
           Inl e \<Rightarrow> Inl e
         | Inr hrir_matrix1 \<Rightarrow>
     (case replicate_pole (single_end_mask g) (end_pole_idx g) (C - 1) L hrir_matrix1 of
           Inl e \<Rightarrow> Inl e
         | Inr hrir_matrix2 \<Rightarrow>
     (case select_cells row_indices column_indices R C (position_mask g) of
           Inl e \<Rightarrow> Inl e
         | Inr selected_position_mask \<Rightarrow>
     (case select_cells row_indices column_indices R C hrir_matrix2 of
           Inl e \<Rightarrow> Inl e
         | Inr selected_hrir_matrix \<Rightarrow>
     (case transform t domain L selected_position_mask selected_hrir_matrix of
           Inl e \<Rightarrow> Inl e
         | Inr result \<Rightarrow>
             if domain = ''complex'' \<and> \<not> complexfloating t then Inl ComplexDtypeRequired
             else
               (case result of
                  None \<Rightarrow> Inl AttributeError
                | Some values \<Rightarrow>
                    (let squeezed = squeeze
                           \<lparr>shape = [length selected_hrir_matrix,
                                      (case column_indices of None \<Rightarrow> C | Some js \<Rightarrow> length js),
                                      K,
                                      if domain = ''time'' then L else L div 2 + 1],
                            elems = map (map_option (astype t)) (flatten values)\<rparr>
                     in if startswith side ''mirrored''
                        then mirror lay (unique_row_angles g) row_indices squeezed
                        else Inr squeezed))))))))"

text \<open>A memory that happens to hold zeros, for running the materializer on examples.\<close>

definition zero_memory :: "nat \<times> nat \<times> nat \<times> nat \<Rightarrow> real" where
  "zero_memory i = 0"

section \<open>Anthropometry: \<open>MatFileAnthropometryDataPoint.anthropomorphic_data\<close>\<close>

text \<open>
  The table \<open>self.anth\<close> is loaded outside this module and is a parameter here: the rows
  of the .mat file, each with its entry in the column \<open>id\<close> (\<open>row_id\<close>) and in the
  columns that the method reads (columns are two-dimensional, as \<open>scipy.io.loadmat\<close>
  returns them). A float of the table is a real number or NaN (\<open>None\<close>).
\<close>

type_synonym npfloat = "real option"

record anth_row =
  row_id :: int
  X :: "npfloat list"
  D :: "npfloat list"
  theta :: "npfloat list"
  WeightKilograms :: npfloat
  age :: npfloat
  sex :: string

datatype selection = SelectNone | SelectStr string | SelectSeq "string list"

definition select_all :: "string list" where
  "select_all = [''head-torso'', ''pinna-size'', ''pinna-angle'', ''weight'', ''age'', ''sex'']"

text \<open>Lines 268--272: the default selection and the single-string shorthand.\<close>

definition selection_names :: "selection \<Rightarrow> string list" where
  "selection_names sel =
     (case sel of SelectNone \<Rightarrow> select_all | SelectStr s \<Rightarrow> [s] | SelectSeq ss \<Rightarrow> ss)"

text \<open>
  Line 284: \<open>np.squeeze(np.argwhere(np.squeeze(self.anth['id']) == subject_id))\<close>. The
  squeezed id column of a table with a single row has no dimension, and
  \<open>np.argwhere\<close> of such an array has no element, whatever the id; otherwise these
  are the positions of the rows with the id.
\<close>

definition subject_idx :: "anth_row list \<Rightarrow> int \<Rightarrow> nat list" where
  "subject_idx anth subject_id =
     (if length anth = 1 then []
      else filter (\<lambda>i. row_id (anth ! i) = subject_id) [0..<length anth])"

text \<open>Lines 288--307: the arrays appended to \<open>select_data\<close>, in order.\<close>

definition select_data :: "anth_row \<Rightarrow> string \<Rightarrow> string list \<Rightarrow> npfloat list list" where
  "select_data row side select =
     (if ''head-torso'' \<in> set select then [X row] else [])
     @ (if side = ''left'' \<or> startswith side ''both''
        then (if ''pinna-size'' \<in> set select then [take 8 (D row)] else [])
             @ (if ''pinna-angle'' \<in> set select then [take 2 (theta row)] else [])
        else [])
     @ (if side = ''right'' \<or> startswith side ''both''
        then (if ''pinna-size'' \<in> set select then [drop 8 (D row)] else [])
             @ (if ''pinna-angle'' \<in> set select then [drop 2 (theta row)] else [])
        else [])
     @ (if ''weight'' \<in> set select then [[WeightKilograms row]] else [])
     @ (if ''age'' \<in> set select then [[age row]] else [])
     @ (if ''sex'' \<in> set select
        then [[if sex row = ''M'' then Some 0 else if sex row = ''F'' then Some 1 else None]]
        else [])"

definition isnan :: "'a option \<Rightarrow> bool" where
  "isnan x \<longleftrightarrow> x = None"

text \<open>
  Lines 267--312. Line 309 casts the selected numbers to \<open>self.dtype\<close>; NaN stays NaN.
  An id that several rows carry selects several rows: the tests of lines 307 and 310
  are then on arrays of more than one truth value and raise.
\<close>

definition anthropomorphic_data ::
  "dtype \<Rightarrow> anth_row list \<Rightarrow> int \<Rightarrow> string option \<Rightarrow> selection
     \<Rightarrow> error + val option list" where
  "anthropomorphic_data t anth subject_id side sel =
     (let select = selection_names sel in
      case side of
        None \<Rightarrow> Inl UnknownSideSelector
      | Some s \<Rightarrow>
          if s \<notin> set [''left'', ''right'', ''both''] then Inl UnknownSideSelector
          else if filter (\<lambda>n. n \<notin> set select_all) select \<noteq> [] then Inl UnknownSelection
          else
            (case subject_idx anth subject_id of
               [] \<Rightarrow> Inl NoMeasurements
             | [i] \<Rightarrow>
                 (let chosen = select_data (anth ! i) s select in
                  if chosen = [] then Inl EmptyConcatenate
                  else
                    (let selected_data =
                           map (map_option (\<lambda>x. astype t (Re_val x))) (concat chosen)
                     in if list_all isnan selected_data then Inl NoDataAvailable
                        else Inr selected_data))
             | i # j # others \<Rightarrow>
                 if select_data (anth ! i) s select = [] then Inl EmptyConcatenate
                 else Inl AmbiguousTruthValue))"

section \<open>Properties of the Grid Selector\<close>

lemma Ex_Not: "Ex Not"
  by blast

lemma compress_map_filter: "compress (map P xs) xs = filter P xs"
  unfolding compress_def by (induction xs) auto

lemma compress_nth:
  "length bs = length xs \<Longrightarrow> compress bs xs = map (\<lambda>i. xs ! i) (nonzero bs)"
proof (induction bs arbitrary: xs)
  case Nil
  then show ?case by (simp add: compress_def nonzero_def)
next
  case (Cons b bs)
  then obtain y ys where xs: "xs = y # ys" by (cases xs) auto
  with Cons.prems have len: "length bs = length ys" by simp
  have shift: "filter (\<lambda>i. (b # bs) ! i) [0..<Suc (length bs)]
      = (if b then [0] else []) @ map Suc (filter (\<lambda>i. bs ! i) [0..<length bs])"
    by (simp add: upt_conv_Cons map_Suc_upt [symmetric] filter_map o_def del: upt_Suc)
  have "compress (b # bs) (y # ys) = (if b then [y] else []) @ compress bs ys"
    by (simp add: compress_def)
  also have "compress bs ys = map (\<lambda>i. ys ! i) (nonzero bs)"
    using Cons.IH [OF len] .
  finally show ?case
    unfolding xs nonzero_def using shift by (simp add: o_def)
qed

lemma set_nonzero: "set (nonzero bs) = {i. i < length bs \<and> bs ! i}"
  by (auto simp: nonzero_def)

lemma sorted_nonzero: "sorted (nonzero bs)" "distinct (nonzero bs)"
  by (simp_all add: nonzero_def sorted_wrt_filter)

lemma compress_index_filter:
  "compress (map (\<lambda>j. Q (xs ! j)) [0..<length xs]) xs = filter Q xs"
proof -
  have "map (\<lambda>j. Q (xs ! j)) [0..<length xs] = map Q (map ((!) xs) [0..<length xs])"
    by (simp add: o_def)
  also have "\<dots> = map Q xs" by (simp only: map_nth)
  finally have "map (\<lambda>j. Q (xs ! j)) [0..<length xs] = map Q xs" .
  then show ?thesis by (simp add: compress_map_filter)
qed

lemma select_indices_length:
  "select_indices angles all_angles = Inr sel \<Longrightarrow> length sel = length all_angles"
  by (auto simp: select_indices_def Let_def split: option.splits if_splits)

lemma selected_pmask_eq:
  assumes "length srow = length pmask"
    and "\<forall>row\<in>set pmask. length row = length scol"
  shows "map (compress scol) (compress srow pmask)
     = map (\<lambda>i. map (\<lambda>j. pmask ! i ! j) (nonzero scol)) (nonzero srow)"
proof -
  have "compress srow pmask = map (\<lambda>i. pmask ! i) (nonzero srow)"
    using assms(1) by (rule compress_nth)
  moreover have "compress scol (pmask ! i) = map (\<lambda>j. pmask ! i ! j) (nonzero scol)"
    if "i \<in> set (nonzero srow)" for i
  proof -
    from that assms(1) have "i < length pmask" by (simp add: set_nonzero)
    then have "length scol = length (pmask ! i)" using assms(2) by simp
    then show ?thesis by (rule compress_nth)
  qed
  ultimately show ?thesis by (simp add: o_def)
qed

lemma keep_rows_eq:
  "compress (map (\<lambda>row. \<not> list_all (list_all id) row)
       (map (\<lambda>i. map (\<lambda>j. m ! i ! j) cs) rs)) rs
   = filter (\<lambda>i. \<exists>j\<in>set cs. \<exists>b\<in>set (m ! i ! j). \<not> b) rs"
proof -
  have "map (\<lambda>row. \<not> list_all (list_all id) row) (map (\<lambda>i. map (\<lambda>j. m ! i ! j) cs) rs)
      = map (\<lambda>i. \<exists>j\<in>set cs. \<exists>b\<in>set (m ! i ! j). \<not> b) rs"
    by (simp add: o_def list_all_iff)
  then show ?thesis by (simp only: compress_map_filter)
qed

lemma keep_columns_eq:
  "compress (map (\<lambda>j. \<not> list_all (\<lambda>row. list_all id (row ! j))
       (map (\<lambda>i. map (\<lambda>j. m ! i ! j) cs) rs)) [0..<length cs]) cs
   = filter (\<lambda>j. \<exists>i\<in>set rs. \<exists>b\<in>set (m ! i ! j). \<not> b) cs"
proof -
  have "map (\<lambda>j. \<not> list_all (\<lambda>row. list_all id (row ! j))
       (map (\<lambda>i. map (\<lambda>j. m ! i ! j) cs) rs)) [0..<length cs]
      = map (\<lambda>j. (\<lambda>c. \<exists>i\<in>set rs. \<exists>b\<in>set (m ! i ! c). \<not> b) (cs ! j)) [0..<length cs]"
    by (simp add: list_all_iff)
  then show ?thesis
    using compress_index_filter [of "\<lambda>c. \<exists>i\<in>set rs. \<exists>b\<in>set (m ! i ! c). \<not> b" cs]
    by (simp only:)
qed

text \<open>
  C1: when both candidate masks are found, the selector prunes each axis once. The rows
  returned are exactly the candidate rows with a non-missing cell in some candidate
  column (at any radius), the columns returned are exactly the candidate columns with a
  non-missing cell in some candidate row; both tests refer to the candidates of the
  other axis as first selected, not to what is left of them after pruning.
\<close>

theorem hrir_select_angles_pruning:
  assumes rows: "select_indices row_angles all_row_angles = Inr srow"
    and cols: "select_indices column_angles all_column_angles = Inr scol"
    and shape: "length pmask = length all_row_angles"
      "\<forall>row\<in>set pmask. length row = length all_column_angles"
  shows "hrir_select_angles row_angles column_angles all_row_angles all_column_angles pmask
     = Inr (filter (\<lambda>i. \<exists>j\<in>set (nonzero scol). \<exists>missing\<in>set (pmask ! i ! j). \<not> missing)
              (nonzero srow),
            filter (\<lambda>j. \<exists>i\<in>set (nonzero srow). \<exists>missing\<in>set (pmask ! i ! j). \<not> missing)
              (nonzero scol))"
proof -
  have lr: "length srow = length pmask"
    using select_indices_length [OF rows] shape(1) by simp
  have lc: "\<forall>row\<in>set pmask. length row = length scol"
    using select_indices_length [OF cols] shape(2) by simp
  have no_error: "\<not> (length srow \<noteq> length pmask
      \<or> list_ex (\<lambda>row. length row \<noteq> length scol) pmask)"
    using lr lc by (simp add: list_ex_iff)
  show ?thesis
    unfolding hrir_select_angles_def Let_def
    by (simp only: rows cols sum.case no_error if_False
        selected_pmask_eq [OF lr lc] keep_rows_eq keep_columns_eq)
qed

theorem hrir_select_angles_pruning_witness:
  "select_indices None [0, 90] = Inr [True, True]
   \<and> select_indices None [0, 45] = Inr [True, True]
   \<and> hrir_select_angles None None [0, 90] [0, 45]
         [[[False], [True]], [[True], [True]]] = Inr ([0], [0])"
  using hrir_select_angles_pruning [of None "[0, 90]" "[True, True]" None "[0, 45]"
      "[True, True]" "[[[False], [True]], [[True], [True]]]"]
  by (simp add: select_indices_def nonzero_def upt_conv_Cons Ex_Not)

lemma list_ex_id_map: "list_ex id (map P xs) \<longleftrightarrow> (\<exists>x\<in>set xs. P x)"
  by (simp add: list_ex_iff)

lemma select_indices_Some:
  "select_indices (Some req) all_angles =
     (if \<exists>a\<in>set all_angles. \<exists>b\<in>set req. isclose a b
      then Inr (map (\<lambda>angle. \<exists>b\<in>set req. isclose angle b) all_angles)
      else Inl NoAnglesAvailable)"
  by (simp add: select_indices_def Let_def list_ex_id_map list_ex_iff)

lemma nonzero_map: "nonzero (map P xs) = filter (\<lambda>i. P (xs ! i)) [0..<length xs]"
  by (auto simp: nonzero_def intro: filter_cong)

text \<open>
  C5: a request of \<open>None\<close> selects every index of the axis; a requested set close to
  no angle of the grid raises the no-matching-angles error (from the selector as a
  whole, for the row request and, once the rows are found, for the column request);
  otherwise the candidates are exactly the indices whose angle is close to a requested
  value, in ascending order and without repetition.
\<close>

theorem select_indices_candidates:
  "select_indices None all_angles = Inr (replicate (length all_angles) True)
   \<and> nonzero (replicate (length all_angles) True) = [0..<length all_angles]
   \<and> ((\<forall>a\<in>set all_angles. \<forall>b\<in>set req. \<not> isclose a b) \<longrightarrow>
        select_indices (Some req) all_angles = Inl NoAnglesAvailable
        \<and> hrir_select_angles (Some req) other_request all_angles other_angles pmask
            = Inl NoAnglesAvailable
        \<and> (\<forall>sel. select_indices other_request other_angles = Inr sel \<longrightarrow>
              hrir_select_angles other_request (Some req) other_angles all_angles pmask
                = Inl NoAnglesAvailable))
   \<and> ((\<exists>a\<in>set all_angles. \<exists>b\<in>set req. isclose a b) \<longrightarrow>
        (\<exists>sel. select_indices (Some req) all_angles = Inr sel
           \<and> nonzero sel
               = filter (\<lambda>i. \<exists>b\<in>set req. isclose (all_angles ! i) b) [0..<length all_angles]
           \<and> sorted (nonzero sel) \<and> distinct (nonzero sel)))"
proof (intro conjI impI)
  show "select_indices None all_angles = Inr (replicate (length all_angles) True)"
    by (simp add: select_indices_def)
  show "nonzero (replicate (length all_angles) True) = [0..<length all_angles]"
    by (simp add: nonzero_def filter_id_conv)
next
  assume none: "\<forall>a\<in>set all_angles. \<forall>b\<in>set req. \<not> isclose a b"
  then show fail: "select_indices (Some req) all_angles = Inl NoAnglesAvailable"
    by (simp add: select_indices_Some)
  then show "hrir_select_angles (Some req) other_request all_angles other_angles pmask
      = Inl NoAnglesAvailable"
    by (simp add: hrir_select_angles_def)
  from fail show "\<forall>sel. select_indices other_request other_angles = Inr sel \<longrightarrow>
      hrir_select_angles other_request (Some req) other_angles all_angles pmask
        = Inl NoAnglesAvailable"
    by (simp add: hrir_select_angles_def)
next
  assume some: "\<exists>a\<in>set all_angles. \<exists>b\<in>set req. isclose a b"
  then have "select_indices (Some req) all_angles
      = Inr (map (\<lambda>angle. \<exists>b\<in>set req. isclose angle b) all_angles)"
    by (simp add: select_indices_Some)
  then show "\<exists>sel. select_indices (Some req) all_angles = Inr sel
      \<and> nonzero sel
          = filter (\<lambda>i. \<exists>b\<in>set req. isclose (all_angles ! i) b) [0..<length all_angles]
      \<and> sorted (nonzero sel) \<and> distinct (nonzero sel)"
    by (simp add: nonzero_map sorted_nonzero)
qed

theorem select_indices_candidates_witness:
  "(\<exists>a\<in>set [0, 45, 90]. \<exists>b\<in>set [0, 45]. isclose a b)
   \<and> select_indices (Some [0, 45]) [0, 45, 90] = Inr [True, True, False]
   \<and> nonzero [True, True, False] = [0, 1]
   \<and> \<not> isclose 0 200 \<and> \<not> isclose 45 200 \<and> \<not> isclose 90 200
   \<and> hrir_select_angles (Some [200]) None [0, 45, 90] [0] [[[False]], [[False]], [[False]]]
       = Inl NoAnglesAvailable"
  using select_indices_candidates [of "[0, 45, 90]" "[0, 45]" None "[0]"
      "[[[False]], [[False]], [[False]]]"]
    select_indices_candidates [of "[0, 45, 90]" "[200]" None "[0]"
      "[[[False]], [[False]], [[False]]]"]
  by (simp add: select_indices_def isclose_def nonzero_def upt_conv_Cons)

section \<open>Properties of the rounding to a float\<close>

lemma rint_of_int: "rint (of_int z) = z"
  by (simp add: rint_def)

text \<open>An integer below \<open>2 ^ p\<close> in absolute value is a float with \<open>p\<close> bits.\<close>

lemma float_round_of_int:
  assumes "\<bar>n\<bar> < 2 ^ p" and emin: "emin \<le> 0"
  shows "float_round p emin (of_int n) = of_int n"
proof (cases "n = 0")
  case True
  then show ?thesis by (simp add: float_round_def)
next
  case False
  define x :: real where "x = of_int n"
  define e where "e = \<lfloor>log 2 \<bar>x\<bar>\<rfloor>"
  have x0: "x \<noteq> 0" using False by (simp add: x_def)
  have "1 \<le> \<bar>n\<bar>" using False by simp
  then have "real_of_int 1 \<le> real_of_int \<bar>n\<bar>" by (simp only: of_int_le_iff)
  then have x1: "1 \<le> \<bar>x\<bar>" by (simp add: x_def)
  have "real_of_int \<bar>n\<bar> < real_of_int (2 ^ p)" using assms by (simp only: of_int_less_iff)
  then have xp: "\<bar>x\<bar> < 2 ^ p" by (simp add: x_def)
  have "log 2 \<bar>x\<bar> < log 2 (2 ^ p)" by (rule log_less) (use x1 xp in simp_all)
  then have lt: "log 2 \<bar>x\<bar> < real p" by simp
  have "e < int p"
  proof -
    have "real_of_int e \<le> log 2 \<bar>x\<bar>" by (simp add: e_def)
    with lt have "real_of_int e < real_of_int (int p)" by simp
    then show ?thesis by (simp only: of_int_less_iff)
  qed
  have "0 \<le> log 2 \<bar>x\<bar>" using x1 by simp
  then have "0 \<le> e" by (simp add: e_def)
  with emin have normal: "max e emin = e" by simp
  define k where "k = nat (int p - 1 - e)"
  have k: "int k = int p - 1 - e" using \<open>e < int p\<close> by (simp add: k_def)
  have "real_of_int (int k) = real_of_int (int p - 1 - e)" by (simp only: k)
  then have "of_int e - (real p - 1) = - real k" by simp
  then have ulp: "2 powr (of_int e - (real p - 1)) = 1 / 2 ^ k"
    by (simp add: powr_minus powr_realpow divide_inverse)
  have "x / (1 / 2 ^ k) = of_int (n * 2 ^ k)" by (simp add: x_def)
  then have "rint (x / (1 / 2 ^ k)) = n * 2 ^ k" by (simp only: rint_of_int)
  then have exact: "of_int (rint (x / (1 / 2 ^ k))) * (1 / 2 ^ k) = x" by (simp add: x_def)
  have "float_round p emin x = of_int (rint (x / (1 / 2 ^ k))) * (1 / 2 ^ k)"
    using x0 ulp normal unfolding float_round_def Let_def e_def [symmetric] by simp
  with exact show ?thesis by (simp add: x_def)
qed

lemma minexp_neg: "minexp t \<le> 0"
  by (cases t) (simp_all add: minexp_def)

lemma significand_bits_pos: "0 < significand_bits t"
  by (cases t) (simp_all add: significand_bits_def)

lemma as_float_numeral:
  "(numeral w :: int) < 2 ^ significand_bits t \<Longrightarrow> as_float t (numeral w) = numeral w"
  using float_round_of_int [of "numeral w" "significand_bits t" "minexp t"] minexp_neg [of t]
  by (simp add: as_float_def)

lemma as_float_zero: "as_float t 0 = 0"
  by (simp add: as_float_def float_round_def)

lemma as_float_one: "as_float t 1 = 1"
  using float_round_of_int [of 1 "significand_bits t" "minexp t"] minexp_neg [of t]
    significand_bits_pos [of t]
  by (simp add: as_float_def)










section \<open>Properties of the anthropometry lookup\<close>

text \<open>
  C10: a side that is not left, right or both (the default \<open>None\<close> included) raises
  the unknown-side error whatever the output type, the table, the subject id and the
  selection are: the check comes before the selection is validated and before any data
  is looked up, also for a selection without pinna fields.
\<close>

theorem anthropomorphic_data_side_checked_first:
  assumes "side \<notin> {Some ''left'', Some ''right'', Some ''both''}"
  shows "anthropomorphic_data t anth subject_id side sel = Inl UnknownSideSelector"
  using assms by (cases side) (auto simp: anthropomorphic_data_def Let_def)

theorem anthropomorphic_data_side_checked_first_witness:
  "None \<notin> {Some ''left'', Some ''right'', Some ''both''}
   \<and> anthropomorphic_data Float32
        [\<lparr>row_id = 7, X = [Some 1], D = [], theta = [], WeightKilograms = Some 70,
          age = None, sex = ''M''\<rparr>,
         \<lparr>row_id = 9, X = [Some 2], D = [], theta = [], WeightKilograms = None,
          age = Some 30, sex = ''F''\<rparr>] 7 None (SelectStr ''weight'')
       = Inl UnknownSideSelector"
  using anthropomorphic_data_side_checked_first [of None Float32
      "[\<lparr>row_id = 7, X = [Some 1], D = [], theta = [], WeightKilograms = Some 70,
          age = None, sex = ''M''\<rparr>,
         \<lparr>row_id = 9, X = [Some 2], D = [], theta = [], WeightKilograms = None,
          age = Some 30, sex = ''F''\<rparr>]" 7 "SelectStr ''weight''"]
  by simp




text \<open>
  A table with a single row: line 285 raises for every id, also for the id of the row.
\<close>

lemma anthropomorphic_data_single_row:
  assumes "side \<in> {''left'', ''right'', ''both''}"
    and "set (selection_names sel) \<subseteq> set select_all"
  shows "anthropomorphic_data t [row] subject_id (Some side) sel = Inl NoMeasurements"
proof -
  have known: "filter (\<lambda>n. n \<notin> set select_all) (selection_names sel) = []"
    using assms(2) by (auto simp: filter_empty_conv)
  have side: "side \<in> set [''left'', ''right'', ''both'']" using assms(1) by simp
  show ?thesis
    unfolding anthropomorphic_data_def Let_def using known side
    by (simp add: subject_idx_def)
qed







section \<open>Properties of the Position Reconciler\<close>

lemma np_unique_props:
  "set (np_unique xs) = set xs" "sorted (np_unique xs)" "distinct (np_unique xs)"
  by (simp_all add: np_unique_def)

lemma argmax_found:
  assumes "list_ex id bs"
  shows "argmax bs < length bs \<and> bs ! argmax bs"
proof -
  from assms have ex: "\<exists>b\<in>set bs. \<not> Not b" by (simp add: list_ex_iff)
  have "length (takeWhile Not bs) \<noteq> length bs"
  proof
    assume "length (takeWhile Not bs) = length bs"
    then have "takeWhile Not bs = bs"
      by (metis takeWhile_dropWhile_id append_eq_conv_conj length_0_conv length_drop diff_self_eq_0 append_Nil2)
    then have "\<forall>b\<in>set bs. Not b" by (simp only: takeWhile_eq_all_conv)
    with ex show False by blast
  qed
  with length_takeWhile_le [of Not bs] have lt: "length (takeWhile Not bs) < length bs"
    by simp
  then have "\<not> Not (bs ! length (takeWhile Not bs))"
    by (rule nth_length_takeWhile)
  with lt assms show ?thesis by (simp add: argmax_def)
qed

lemma index_of_found:
  assumes "v \<in> set unique"
  shows "index_of v unique < length unique \<and> unique ! index_of v unique = v"
proof -
  have "list_ex id (map (\<lambda>u. v = u) unique)"
    using assms by (auto simp: list_ex_iff)
  from argmax_found [OF this] show ?thesis
    by (auto simp: index_of_def)
qed

lemma wf_mask_replicate: "wf_mask R C K (replicate R (replicate C (replicate K v)))"
  by (simp add: wf_mask_def)

lemma update3_wf: "wf_mask R C K m \<Longrightarrow> wf_mask R C K (update3 m a b d v)"
proof -
  assume wf: "wf_mask R C K m"
  have "length (update3 m a b d v ! r) = C \<and> (\<forall>c<C. length (update3 m a b d v ! r ! c) = K)"
    if "r < R" for r
  proof (cases "a = r")
    case False
    then show ?thesis using wf that by (simp add: update3_def wf_mask_def)
  next
    case True
    have r: "r < length m" using wf that by (simp add: wf_mask_def)
    have row: "update3 m a b d v ! r = (m ! r)[b := (m ! r ! b)[d := v]]"
      using True r by (simp add: update3_def)
    have "length ((m ! r)[b := (m ! r ! b)[d := v]] ! c) = K" if "c < C" for c
      using wf \<open>r < R\<close> that by (cases "b = c") (simp_all add: wf_mask_def)
    then show ?thesis using wf that row by (simp add: wf_mask_def)
  qed
  then show ?thesis using wf by (simp add: wf_mask_def update3_def)
qed

lemma update3_nth:
  assumes "wf_mask R C K m" "r < R" "c < C" "k < K"
  shows "update3 m a b d v ! r ! c ! k = (if (a, b, d) = (r, c, k) then v else m ! r ! c ! k)"
proof (cases "a = r")
  case False
  then show ?thesis by (simp add: update3_def)
next
  case a: True
  have r: "r < length m" using assms by (simp add: wf_mask_def)
  have c: "c < length (m ! r)" using assms by (simp add: wf_mask_def)
  have k: "k < length (m ! r ! c)" using assms by (simp add: wf_mask_def)
  have row: "update3 m a b d v ! r = (m ! r)[b := (m ! r ! b)[d := v]]"
    using a r by (simp add: update3_def)
  show ?thesis
  proof (cases "b = c")
    case False
    then show ?thesis using row by simp
  next
    case b: True
    have "update3 m a b d v ! r ! c = (m ! r ! c)[d := v]"
      using row b c by simp
    then show ?thesis using a b k by (cases "d = k") simp_all
  qed
qed

lemma clear_cell_wf: "wf_mask R C K m \<Longrightarrow> wf_mask R C K (clear_cell cell m)"
  using update3_wf [of R C K m _ _ _ False]
  by (cases cell) (simp add: clear_cell_def update3_def)

lemma clear_cell_nth:
  assumes "wf_mask R C K m" "r < R" "c < C" "k < K"
  shows "clear_cell cell m ! r ! c ! k \<longleftrightarrow> cell \<noteq> (r, c, k) \<and> m ! r ! c ! k"
proof -
  obtain a b d where cell: "cell = (a, b, d)" by (cases cell)
  have "clear_cell cell m = update3 m a b d False"
    by (simp add: cell clear_cell_def update3_def)
  then show ?thesis using update3_nth [OF assms, of a b d False] cell by auto
qed

lemma fold_clear_cell:
  assumes "wf_mask R C K m"
  shows "wf_mask R C K (fold clear_cell cells m)
    \<and> (\<forall>r<R. \<forall>c<C. \<forall>k<K.
          fold clear_cell cells m ! r ! c ! k \<longleftrightarrow> (r, c, k) \<notin> set cells \<and> m ! r ! c ! k)"
  using assms
proof (induction cells arbitrary: m)
  case Nil
  then show ?case by simp
next
  case (Cons cell cells)
  have wf: "wf_mask R C K (clear_cell cell m)" using Cons.prems by (rule clear_cell_wf)
  from Cons.IH [OF wf] clear_cell_nth [OF Cons.prems]
  show ?case by auto
qed

lemma clear_cells_props:
  "wf_mask R C K (clear_cells cells R C K)"
  "r < R \<Longrightarrow> c < C \<Longrightarrow> k < K \<Longrightarrow> clear_cells cells R C K ! r ! c ! k \<longleftrightarrow> (r, c, k) \<notin> set cells"
  using fold_clear_cell [OF wf_mask_replicate [where v = True], where cells = cells and R = R and C = C and K = K]
  by (simp_all add: clear_cells_def)

lemma mark_pole_cell:
  assumes "wf_mask R C K m" "length single = K" "r < R" "c' < C"
  shows "mark_pole single m c ! r ! c'
     = (if c' = c then map (\<lambda>(s, missing). if s then False else missing) (zip single (m ! r ! c'))
        else m ! r ! c')"
proof -
  have r: "r < length m" and c': "c' < length (m ! r)"
    using assms by (simp_all add: wf_mask_def)
  have "mark_pole single m c ! r
      = (m ! r)[c := map (\<lambda>(s, missing). if s then False else missing) (zip single (m ! r ! c))]"
    using r by (simp add: mark_pole_def)
  then show ?thesis using c' by (cases "c' = c") simp_all
qed

lemma mark_pole_wf:
  assumes "wf_mask R C K m" "length single = K"
  shows "wf_mask R C K (mark_pole single m c)"
proof -
  have "length (mark_pole single m c ! r) = C
      \<and> (\<forall>c'<C. length (mark_pole single m c ! r ! c') = K)" if "r < R" for r
  proof
    have "r < length m" using assms that by (simp add: wf_mask_def)
    then show "length (mark_pole single m c ! r) = C"
      using assms that by (simp add: mark_pole_def wf_mask_def)
    show "\<forall>c'<C. length (mark_pole single m c ! r ! c') = K"
      using mark_pole_cell [OF assms that] assms that by (simp add: wf_mask_def)
  qed
  then show ?thesis using assms by (simp add: wf_mask_def mark_pole_def)
qed

lemma mark_pole_nth:
  assumes "wf_mask R C K m" "length single = K" "r < R" "c' < C" "k < K"
  shows "mark_pole single m c ! r ! c' ! k \<longleftrightarrow> \<not> (c' = c \<and> single ! k) \<and> m ! r ! c' ! k"
proof -
  have len: "k < length (m ! r ! c')" "k < length single"
    using assms by (simp_all add: wf_mask_def)
  then have "map (\<lambda>(s, missing). if s then False else missing) (zip single (m ! r ! c')) ! k
      = (if single ! k then False else m ! r ! c' ! k)"
    by simp
  then show ?thesis
    using mark_pole_cell [OF assms(1-4), of c] by (cases "c' = c") simp_all
qed

lemma single_mask_props:
  "length (single_mask col K) = K"
  "k < K \<Longrightarrow> single_mask (mask_column m c) K ! k
      \<longleftrightarrow> length (filter (\<lambda>r. \<not> m ! r ! c ! k) [0..<length m]) = 1"
proof -
  show "length (single_mask col K) = K" by (simp add: single_mask_def)
  have "filter (\<lambda>row. \<not> row ! k) (map (\<lambda>row. row ! c) m)
      = map (\<lambda>r. m ! r ! c) (filter (\<lambda>r. \<not> m ! r ! c ! k) [0..<length m])"
  proof -
    have "map (\<lambda>row. row ! c) (map ((!) m) [0..<length m]) = map (\<lambda>r. m ! r ! c) [0..<length m]"
      by (simp add: o_def)
    then have "map (\<lambda>row. row ! c) m = map (\<lambda>r. m ! r ! c) [0..<length m]"
      by (simp only: map_nth)
    then show ?thesis by (simp add: filter_map o_def)
  qed
  then have "length (filter (\<lambda>row. \<not> row ! k) (map (\<lambda>row. row ! c) m))
      = length (filter (\<lambda>r. \<not> m ! r ! c ! k) [0..<length m])"
    by simp
  then show "k < K \<Longrightarrow> single_mask (mask_column m c) K ! k
      \<longleftrightarrow> length (filter (\<lambda>r. \<not> m ! r ! c ! k) [0..<length m]) = 1"
    by (simp add: single_mask_def mask_column_def)
qed

lemma not_both_poles: "\<not> (isclose x 90 \<and> isclose x (- 90))"
  by (auto simp: isclose_def abs_if split: if_splits)

lemma single_mask_occupied:
  assumes wf: "wf_mask R C K m" and c: "c < C"
    and occ: "\<And>r k. r < R \<Longrightarrow> k < K \<Longrightarrow> m ! r ! c ! k \<longleftrightarrow> (r, c, k) \<notin> set cells"
  shows "single_mask (mask_column m c) K
     = map (\<lambda>k. length (filter (\<lambda>r. (r, c, k) \<in> set cells) [0..<R]) = 1) [0..<K]"
proof (rule nth_equalityI)
  show "length (single_mask (mask_column m c) K)
      = length (map (\<lambda>k. length (filter (\<lambda>r. (r, c, k) \<in> set cells) [0..<R]) = 1) [0..<K])"
    by (simp add: single_mask_props(1))
next
  fix k assume "k < length (single_mask (mask_column m c) K)"
  then have k: "k < K" by (simp add: single_mask_props(1))
  have len: "length m = R" using wf by (simp add: wf_mask_def)
  have "filter (\<lambda>r. \<not> m ! r ! c ! k) [0..<R] = filter (\<lambda>r. (r, c, k) \<in> set cells) [0..<R]"
    by (rule filter_cong) (simp_all add: occ k)
  then show "single_mask (mask_column m c) K ! k
      = map (\<lambda>k. length (filter (\<lambda>r. (r, c, k) \<in> set cells) [0..<R]) = 1) [0..<K] ! k"
    using single_mask_props(2) [OF k, of m c] k len by simp
qed

lemma quantise_length: "length (quantise q positions) = length positions"
  by (simp add: quantise_def)

lemma length_concat_const:
  "\<forall>xs\<in>set xss. length xs = K \<Longrightarrow> length (concat xss) = length xss * K"
  by (induction xss) simp_all

lemma pole_idx_bound:
  assumes "wf_mask R C K m" "c < C" "0 < R * K"
  shows "pole_idx (mask_column m c) < R * K"
proof -
  define bs where "bs = concat (map (map Not) (mask_column m c))"
  have "\<forall>xs\<in>set (map (map Not) (mask_column m c)). length xs = K"
    using assms(1,2) by (auto simp: mask_column_def wf_mask_def in_set_conv_nth)
  from length_concat_const [OF this] have len: "length bs = R * K"
    using assms(1) by (simp add: bs_def mask_column_def wf_mask_def)
  show ?thesis
  proof (cases "list_ex id bs")
    case True
    from argmax_found [OF this] len show ?thesis by (simp add: pole_idx_def bs_def)
  next
    case False
    then show ?thesis using assms(3) by (simp add: pole_idx_def bs_def argmax_def)
  qed
qed

lemma reconciler_grid:
  assumes grid: "map_sofa_position_order_to_matrix q positions = Inr g"
  shows grid_wf: "wf_mask (length (unique_row_angles g)) (length (unique_column_angles g))
        (length (unique_radii g)) (position_mask g)"
    and grid_distinct: "distinct (unique_row_angles g)" "distinct (unique_column_angles g)"
        "distinct (unique_radii g)"
    and grid_map_length: "length (position_map g) = length positions"
    and grid_cells: "\<forall>idx<length positions. \<exists>r c k.
          position_map g ! idx = (r, c, k)
          \<and> r < length (unique_row_angles g) \<and> c < length (unique_column_angles g)
          \<and> k < length (unique_radii g)
          \<and> quantise q positions ! idx
              = (unique_row_angles g ! r, unique_column_angles g ! c, unique_radii g ! k)"
    and grid_mask: "\<forall>r<length (unique_row_angles g). \<forall>c<length (unique_column_angles g).
        \<forall>k<length (unique_radii g).
          (\<not> position_mask g ! r ! c ! k) =
            ((r, c, k) \<in> set (position_map g)
             \<or> (c = length (unique_column_angles g) - 1
                 \<and> (\<exists>s. single_end_mask g = Some s \<and> s ! k))
             \<or> (c = 0 \<and> (\<exists>s. single_start_mask g = Some s \<and> s ! k)))"
    and grid_single_end: "single_end_mask g =
        (if isclose (last (unique_column_angles g)) 90
         then Some (map (\<lambda>k. length (filter
                 (\<lambda>r. (r, length (unique_column_angles g) - 1, k) \<in> set (position_map g))
                 [0..<length (unique_row_angles g)]) = 1) [0..<length (unique_radii g)])
         else None)"
    and grid_single_start: "single_start_mask g =
        (if isclose (hd (unique_column_angles g)) (- 90)
         then Some (map (\<lambda>k. length (filter (\<lambda>r. (r, 0, k) \<in> set (position_map g))
                 [0..<length (unique_row_angles g)]) = 1) [0..<length (unique_radii g)])
         else None)"
    and grid_end_idx: "end_pole_idx g =
        (if isclose (last (unique_column_angles g)) 90
         then pole_idx (mask_column
                (clear_cells (position_map g) (length (unique_row_angles g))
                   (length (unique_column_angles g)) (length (unique_radii g)))
                (length (unique_column_angles g) - 1))
         else 0)"
    and grid_pos: "0 < length (unique_row_angles g)" "0 < length (unique_column_angles g)"
        "0 < length (unique_radii g)"
    and grid_idx_bound:
        "start_pole_idx g < length (unique_row_angles g) * length (unique_radii g)"
        "end_pole_idx g < length (unique_row_angles g) * length (unique_radii g)"
proof -
  define qp where "qp = quantise q positions"
  define rows where "rows = np_unique (map fst qp)"
  define cols where "cols = np_unique (map (\<lambda>p. fst (snd p)) qp)"
  define radii where "radii = np_unique (map (\<lambda>p. snd (snd p)) qp)"
  define pmap where "pmap = map (\<lambda>(row_angle, column_angle, radius).
      (index_of row_angle rows, index_of column_angle cols, index_of radius radii)) qp"
  define R where "R = length rows"
  define C where "C = length cols"
  define K where "K = length radii"
  define mask0 where "mask0 = clear_cells pmap R C K"
  define single_end where "single_end =
      (if isclose (last cols) 90 then Some (single_mask (mask_column mask0 (C - 1)) K) else None)"
  define end_idx where "end_idx =
      (if isclose (last cols) 90 then pole_idx (mask_column mask0 (C - 1)) else 0)"
  define mask1 where "mask1 =
      (case single_end of Some s \<Rightarrow> mark_pole s mask0 (C - 1) | None \<Rightarrow> mask0)"
  define single_start where "single_start =
      (if isclose (hd cols) (- 90) then Some (single_mask (mask_column mask1 0) K) else None)"
  define start_idx where "start_idx =
      (if isclose (hd cols) (- 90) then pole_idx (mask_column mask1 0) else 0)"
  define mask2 where "mask2 =
      (case single_start of Some s \<Rightarrow> mark_pole s mask1 0 | None \<Rightarrow> mask1)"
  define g0 where "g0 = \<lparr>unique_row_angles = rows, unique_column_angles = cols,
      unique_radii = radii, position_mask = mask2, position_map = pmap,
      single_start_mask = single_start, start_pole_idx = start_idx,
      single_end_mask = single_end, end_pole_idx = end_idx\<rparr>"
  have "positions \<noteq> []"
  proof
    assume "positions = []"
    then have "map_sofa_position_order_to_matrix q positions = Inl IndexError"
      by (simp add: map_sofa_position_order_to_matrix_def quantise_def np_unique_def)
    with grid show False by simp
  qed
  then have qp_ne: "qp \<noteq> []" by (simp add: qp_def quantise_def)
  have cols_ne: "cols \<noteq> []"
  proof
    assume "cols = []"
    then have "set (np_unique (map (\<lambda>p. fst (snd p)) qp)) = {}" by (simp add: cols_def)
    then show False using qp_ne by (simp add: np_unique_props(1))
  qed
  have C_pos: "0 < C" using cols_ne by (simp add: C_def)
  have result: "map_sofa_position_order_to_matrix q positions = Inr g0"
    using cols_ne
    unfolding map_sofa_position_order_to_matrix_def Let_def g0_def mask2_def start_idx_def
      single_start_def mask1_def end_idx_def single_end_def mask0_def K_def C_def R_def
      pmap_def radii_def cols_def rows_def qp_def
    by simp
  \<comment> \<open>the position map\<close>
  have cell: "\<exists>r c k. pmap ! idx = (r, c, k) \<and> r < R \<and> c < C \<and> k < K
      \<and> qp ! idx = (rows ! r, cols ! c, radii ! k)" if "idx < length positions" for idx
  proof -
    have idx: "idx < length qp" using that by (simp add: qp_def quantise_length)
    obtain a b d where p: "qp ! idx = (a, b, d)" by (cases "qp ! idx")
    have mem: "(a, b, d) \<in> set qp" using idx p by (metis nth_mem)
    have "a \<in> set rows"
      using mem by (force simp: rows_def np_unique_props(1))
    moreover have "b \<in> set cols"
      using mem by (force simp: cols_def np_unique_props(1))
    moreover have "d \<in> set radii"
      using mem by (force simp: radii_def np_unique_props(1))
    ultimately have "index_of a rows < R \<and> rows ! index_of a rows = a"
      "index_of b cols < C \<and> cols ! index_of b cols = b"
      "index_of d radii < K \<and> radii ! index_of d radii = d"
      by (simp_all add: index_of_found R_def C_def K_def)
    moreover have "pmap ! idx = (index_of a rows, index_of b cols, index_of d radii)"
      using idx p by (simp add: pmap_def)
    ultimately show ?thesis using p by simp
  qed
  \<comment> \<open>the mask before the poles\<close>
  have wf0: "wf_mask R C K mask0" by (simp add: mask0_def clear_cells_props(1))
  have m0: "mask0 ! r ! c ! k \<longleftrightarrow> (r, c, k) \<notin> set pmap" if "r < R" "c < C" "k < K" for r c k
    using that by (simp add: mask0_def clear_cells_props(2))
  \<comment> \<open>the end pole\<close>
  have end_eq: "single_end = (if isclose (last cols) 90
      then Some (map (\<lambda>k. length (filter (\<lambda>r. (r, C - 1, k) \<in> set pmap) [0..<R]) = 1) [0..<K])
      else None)"
    unfolding single_end_def
    using single_mask_occupied [OF wf0, of "C - 1" pmap] m0 C_pos by simp
  have wf1: "wf_mask R C K mask1"
    using wf0 by (simp add: mask1_def single_end_def mark_pole_wf single_mask_props(1))
  have m1: "mask1 ! r ! c ! k \<longleftrightarrow>
      \<not> (c = C - 1 \<and> (\<exists>s. single_end = Some s \<and> s ! k)) \<and> mask0 ! r ! c ! k"
    if "r < R" "c < C" "k < K" for r c k
  proof (cases single_end)
    case None
    then show ?thesis by (simp add: mask1_def)
  next
    case (Some s)
    then have "length s = K"
      by (auto simp: single_end_def single_mask_props(1) split: if_splits)
    from mark_pole_nth [OF wf0 this that, of "C - 1"] Some show ?thesis
      by (simp add: mask1_def)
  qed
  \<comment> \<open>the start pole\<close>
  have m1_start: "mask1 ! r ! 0 ! k \<longleftrightarrow> (r, 0, k) \<notin> set pmap"
    if "isclose (hd cols) (- 90)" "r < R" "k < K" for r k
  proof (cases "C = 1")
    case True
    then have "last cols = hd cols"
      using cols_ne by (cases cols) (simp_all add: C_def)
    then have "single_end = None"
      using that(1) not_both_poles [of "hd cols"] by (simp add: single_end_def)
    then show ?thesis using m1 [OF that(2) C_pos that(3)] m0 [OF that(2) C_pos that(3)] by simp
  next
    case False
    then have "0 \<noteq> C - 1" using C_pos by simp
    then show ?thesis using m1 [OF that(2) C_pos that(3)] m0 [OF that(2) C_pos that(3)] by simp
  qed
  have start_eq: "single_start = (if isclose (hd cols) (- 90)
      then Some (map (\<lambda>k. length (filter (\<lambda>r. (r, 0, k) \<in> set pmap) [0..<R]) = 1) [0..<K])
      else None)"
  proof (cases "isclose (hd cols) (- 90)")
    case True
    from single_mask_occupied [OF wf1 C_pos, of pmap] m1_start [OF True]
    show ?thesis using True by (simp add: single_start_def)
  next
    case False
    then show ?thesis by (simp add: single_start_def)
  qed
  have wf2: "wf_mask R C K mask2"
    using wf1 by (simp add: mask2_def single_start_def mark_pole_wf single_mask_props(1))
  have m2: "mask2 ! r ! c ! k \<longleftrightarrow>
      \<not> (c = 0 \<and> (\<exists>s. single_start = Some s \<and> s ! k)) \<and> mask1 ! r ! c ! k"
    if "r < R" "c < C" "k < K" for r c k
  proof (cases single_start)
    case None
    then show ?thesis by (simp add: mask2_def)
  next
    case (Some s)
    then have "length s = K"
      by (auto simp: single_start_def single_mask_props(1) split: if_splits)
    from mark_pole_nth [OF wf1 this that, of 0] Some show ?thesis
      by (simp add: mask2_def)
  qed
  have final: "(\<not> mask2 ! r ! c ! k) =
      ((r, c, k) \<in> set pmap
       \<or> (c = C - 1 \<and> (\<exists>s. single_end = Some s \<and> s ! k))
       \<or> (c = 0 \<and> (\<exists>s. single_start = Some s \<and> s ! k)))"
    if "r < R" "c < C" "k < K" for r c k
    using m2 [OF that] m1 [OF that] m0 [OF that] by blast
  have R_pos: "0 < R"
  proof -
    have "set rows \<noteq> {}" using qp_ne by (simp add: rows_def np_unique_props(1))
    then show ?thesis by (simp add: R_def)
  qed
  have K_pos: "0 < K"
  proof -
    have "set radii \<noteq> {}" using qp_ne by (simp add: radii_def np_unique_props(1))
    then show ?thesis by (simp add: K_def)
  qed
  have RK: "0 < R * K" using R_pos K_pos by simp
  have end_bound: "end_idx < R * K"
    using pole_idx_bound [OF wf0 _ RK, of "C - 1"] C_pos RK by (simp add: end_idx_def)
  have start_bound: "start_idx < R * K"
    using pole_idx_bound [OF wf1 C_pos RK] RK by (simp add: start_idx_def)
  have g: "g = g0" using grid result by simp
  have fields: "unique_row_angles g = rows" "unique_column_angles g = cols"
    "unique_radii g = radii" "position_mask g = mask2" "position_map g = pmap"
    "single_start_mask g = single_start" "single_end_mask g = single_end"
    "start_pole_idx g = start_idx" "end_pole_idx g = end_idx"
    by (simp_all add: g g0_def)
  show "wf_mask (length (unique_row_angles g)) (length (unique_column_angles g))
        (length (unique_radii g)) (position_mask g)"
    using wf2 by (simp add: fields R_def C_def K_def)
  show "distinct (unique_row_angles g)" "distinct (unique_column_angles g)"
    "distinct (unique_radii g)"
    by (simp_all add: fields rows_def cols_def radii_def np_unique_props(3))
  show "length (position_map g) = length positions"
    by (simp add: fields pmap_def qp_def quantise_length)
  show "\<forall>idx<length positions. \<exists>r c k.
          position_map g ! idx = (r, c, k)
          \<and> r < length (unique_row_angles g) \<and> c < length (unique_column_angles g)
          \<and> k < length (unique_radii g)
          \<and> quantise q positions ! idx
              = (unique_row_angles g ! r, unique_column_angles g ! c, unique_radii g ! k)"
    using cell by (simp add: fields R_def C_def K_def qp_def)
  show "\<forall>r<length (unique_row_angles g). \<forall>c<length (unique_column_angles g).
        \<forall>k<length (unique_radii g).
          (\<not> position_mask g ! r ! c ! k) =
            ((r, c, k) \<in> set (position_map g)
             \<or> (c = length (unique_column_angles g) - 1
                 \<and> (\<exists>s. single_end_mask g = Some s \<and> s ! k))
             \<or> (c = 0 \<and> (\<exists>s. single_start_mask g = Some s \<and> s ! k)))"
    using final by (simp add: fields R_def C_def K_def)
  show "single_end_mask g =
        (if isclose (last (unique_column_angles g)) 90
         then Some (map (\<lambda>k. length (filter
                 (\<lambda>r. (r, length (unique_column_angles g) - 1, k) \<in> set (position_map g))
                 [0..<length (unique_row_angles g)]) = 1) [0..<length (unique_radii g)])
         else None)"
    using end_eq by (simp add: fields R_def C_def K_def)
  show "single_start_mask g =
        (if isclose (hd (unique_column_angles g)) (- 90)
         then Some (map (\<lambda>k. length (filter (\<lambda>r. (r, 0, k) \<in> set (position_map g))
                 [0..<length (unique_row_angles g)]) = 1) [0..<length (unique_radii g)])
         else None)"
    using start_eq by (simp add: fields R_def C_def K_def)
  show "end_pole_idx g =
        (if isclose (last (unique_column_angles g)) 90
         then pole_idx (mask_column
                (clear_cells (position_map g) (length (unique_row_angles g))
                   (length (unique_column_angles g)) (length (unique_radii g)))
                (length (unique_column_angles g) - 1))
         else 0)"
    by (simp add: fields end_idx_def mask0_def R_def C_def K_def)
  show "0 < length (unique_row_angles g)" "0 < length (unique_column_angles g)"
    "0 < length (unique_radii g)"
    using R_pos C_pos K_pos by (simp_all add: fields R_def C_def K_def)
  show "start_pole_idx g < length (unique_row_angles g) * length (unique_radii g)"
    "end_pole_idx g < length (unique_row_angles g) * length (unique_radii g)"
    using start_bound end_bound by (simp_all add: fields R_def K_def)
qed

lemma reconciler_total:
  assumes "positions \<noteq> []"
  shows "\<exists>g. map_sofa_position_order_to_matrix q positions = Inr g"
proof -
  have "set (np_unique (map (\<lambda>p. fst (snd p)) (quantise q positions))) \<noteq> {}"
    using assms by (simp add: np_unique_props(1) quantise_def)
  then have "np_unique (map (\<lambda>p. fst (snd p)) (quantise q positions)) \<noteq> []"
    by auto
  then show ?thesis
    by (simp add: map_sofa_position_order_to_matrix_def Let_def)
qed

text \<open>
  C3: for a non-empty list of raw positions the reconciler returns a grid. Every raw
  index has one cell in the position map, a triple of indices into the arrays of unique
  row angles, column angles and radii (each without repetition) at which the rounded
  coordinates of the position stand. The mask has the shape of the grid and is false
  exactly at the cells of the position map and at the cells of a pole column whose
  radius the pole bookkeeping marks (exactly one occupied row at that column and
  radius); it is true everywhere else.
\<close>

theorem reconciler_cells_and_mask:
  assumes "positions \<noteq> []"
  shows "\<exists>g. map_sofa_position_order_to_matrix q positions = Inr g
    \<and> wf_mask (length (unique_row_angles g)) (length (unique_column_angles g))
        (length (unique_radii g)) (position_mask g)
    \<and> distinct (unique_row_angles g) \<and> distinct (unique_column_angles g)
    \<and> distinct (unique_radii g)
    \<and> length (position_map g) = length positions
    \<and> (\<forall>idx<length positions. \<exists>r c k.
          position_map g ! idx = (r, c, k)
          \<and> r < length (unique_row_angles g) \<and> c < length (unique_column_angles g)
          \<and> k < length (unique_radii g)
          \<and> quantise q positions ! idx
              = (unique_row_angles g ! r, unique_column_angles g ! c, unique_radii g ! k))
    \<and> (\<forall>r<length (unique_row_angles g). \<forall>c<length (unique_column_angles g).
        \<forall>k<length (unique_radii g).
          (\<not> position_mask g ! r ! c ! k) =
            ((r, c, k) \<in> set (position_map g)
             \<or> (c = length (unique_column_angles g) - 1
                 \<and> (\<exists>s. single_end_mask g = Some s \<and> s ! k))
             \<or> (c = 0 \<and> (\<exists>s. single_start_mask g = Some s \<and> s ! k))))
    \<and> single_end_mask g =
        (if isclose (last (unique_column_angles g)) 90
         then Some (map (\<lambda>k. length (filter
                 (\<lambda>r. (r, length (unique_column_angles g) - 1, k) \<in> set (position_map g))
                 [0..<length (unique_row_angles g)]) = 1) [0..<length (unique_radii g)])
         else None)
    \<and> single_start_mask g =
        (if isclose (hd (unique_column_angles g)) (- 90)
         then Some (map (\<lambda>k. length (filter (\<lambda>r. (r, 0, k) \<in> set (position_map g))
                 [0..<length (unique_row_angles g)]) = 1) [0..<length (unique_radii g)])
         else None)"
proof -
  from reconciler_total [OF assms] obtain g
    where grid: "map_sofa_position_order_to_matrix q positions = Inr g" by blast
  show ?thesis
  proof (intro exI [of _ g] conjI)
    show "map_sofa_position_order_to_matrix q positions = Inr g" by (fact grid)
  qed (fact reconciler_grid [OF grid])+
qed

theorem reconciler_cells_and_mask_witness:
  "[(- 90, 0, 1), (0, 0, 1), (0, 90, 1)] \<noteq> ([] :: position list)
   \<and> map_sofa_position_order_to_matrix 3 [(- 90, 0, 1), (0, 0, 1), (0, 90, 1)]
       = Inr \<lparr>unique_row_angles = [- 90, 0], unique_column_angles = [0, 90],
              unique_radii = [1],
              position_mask = [[[False], [False]], [[False], [False]]],
              position_map = [(0, 0, 0), (1, 0, 0), (1, 1, 0)],
              single_start_mask = None, start_pole_idx = 0,
              single_end_mask = Some [True], end_pole_idx = 1\<rparr>"
  using reconciler_cells_and_mask [of "[(- 90, 0, 1), (0, 0, 1), (0, 90, 1)]" 3]
  by (simp add: map_sofa_position_order_to_matrix_def quantise_def np_round_def rint_def
      wrap_closed_open_interval_def Let_def np_unique_def index_of_def argmax_def
      clear_cells_def clear_cell_def update3_def isclose_def mask_column_def single_mask_def
      pole_idx_def mark_pole_def upt_conv_Cons)

section \<open>Properties of the Signal Materializer\<close>

text \<open>The equations that evaluate the materializer on a concrete file.\<close>

lemma half_Suc_Suc: "Suc (Suc n) div Suc (Suc 0) = Suc (n div Suc (Suc 0))"
  using div2_Suc_Suc [of n] by (simp add: numeral_2_eq_2)

lemmas hrir_eval = hrir_def map_sofa_position_order_to_matrix_def quantise_def np_round_def rint_def wrap_closed_open_interval_def
   Let_def np_unique_def index_of_def argmax_def clear_cells_def clear_cell_def update3_def isclose_def endswith_def startswith_def
   scatter_def put_cell_def empty_matrix_def replicate_pole_def select_cells_def transform_def mask_cells_def masked_where_def map_cells_def
   flatten_def squeeze_def astype_def complexfloating_def mask_column_def single_mask_def pole_idx_def mark_pole_def
   mirror_def flipud_def fliplr_def hold_first_flip_rest_def blocks_def upt_conv_Cons zero_memory_def half_Suc_Suc
   significand_bits_def as_float_zero as_float_one as_float_numeral

lemma transform_magnitude_prefix:
  assumes "startswith domain ''magnitude''"
  shows "domain \<noteq> ''time''" "domain \<noteq> ''complex''"
    "transform t domain L m a
       = transform t (if endswith domain ''_db'' then ''magnitude_db'' else ''magnitude'') L m a"
proof -
  show 1: "domain \<noteq> ''time''" and 2: "domain \<noteq> ''complex''"
    using assms by (auto simp: startswith_def)
  have 3: "startswith ''magnitude_db'' ''magnitude''" "startswith ''magnitude'' ''magnitude''"
    "endswith ''magnitude_db'' ''_db''" "\<not> endswith ''magnitude'' ''_db''"
    by (simp_all add: startswith_def endswith_def)
  show "transform t domain L m a
       = transform t (if endswith domain ''_db'' then ''magnitude_db'' else ''magnitude'') L m a"
    using assms 1 2 3 by (simp add: transform_def)
qed

text \<open>
  C2 (as amended): the side is never rejected. It is read only through whether it ends
  with \<open>left\<close> (the left channel, otherwise the right one) and whether it starts with
  \<open>mirrored\<close>, so two sides that agree on both give the same outcome; and every domain
  that starts with \<open>magnitude\<close> is taken as \<open>magnitude_db\<close> when it ends with \<open>_db\<close>
  and as \<open>magnitude\<close> otherwise.
\<close>

theorem hrir_side_and_domain_dispatch:
  "((endswith side ''left'' \<longleftrightarrow> endswith side' ''left'')
      \<and> (startswith side ''mirrored'' \<longleftrightarrow> startswith side' ''mirrored'') \<longrightarrow>
      hrir lay t q uninit sofa side domain row_indices column_indices
        = hrir lay t q uninit sofa side' domain row_indices column_indices)
   \<and> (startswith domain ''magnitude'' \<longrightarrow>
      hrir lay t q uninit sofa side domain row_indices column_indices
        = hrir lay t q uninit sofa side
            (if endswith domain ''_db'' then ''magnitude_db'' else ''magnitude'')
            row_indices column_indices)"
proof (intro conjI impI)
  assume "(endswith side ''left'' \<longleftrightarrow> endswith side' ''left'')
      \<and> (startswith side ''mirrored'' \<longleftrightarrow> startswith side' ''mirrored'')"
  then have same: "endswith side ''left'' = endswith side' ''left''"
    "startswith side ''mirrored'' = startswith side' ''mirrored''"
    by simp_all
  show "hrir lay t q uninit sofa side domain row_indices column_indices
        = hrir lay t q uninit sofa side' domain row_indices column_indices"
    unfolding hrir_def same ..
next
  assume prefix: "startswith domain ''magnitude''"
  define d where "d = (if endswith domain ''_db'' then ''magnitude_db'' else ''magnitude'')"
  have "transform t domain L m a = transform t d L m a" for L m a
    using transform_magnitude_prefix(3) [OF prefix] by (simp add: d_def)
  then have "transform t domain = transform t d" by (intro ext)
  moreover have "(domain = ''time'') = (d = ''time'')" "(domain = ''complex'') = (d = ''complex'')"
    using transform_magnitude_prefix(1,2) [OF prefix] by (simp_all add: d_def)
  ultimately have same: "transform t domain = transform t d"
    "(domain = ''time'') = (d = ''time'')" "(domain = ''complex'') = (d = ''complex'')"
    by simp_all
  have "hrir lay t q uninit sofa side domain row_indices column_indices
        = hrir lay t q uninit sofa side d row_indices column_indices"
    unfolding hrir_def same ..
  then show "hrir lay t q uninit sofa side domain row_indices column_indices
        = hrir lay t q uninit sofa side
            (if endswith domain ''_db'' then ''magnitude_db'' else ''magnitude'')
            row_indices column_indices"
    by (simp only: d_def)
qed

theorem hrir_side_and_domain_dispatch_witness:
  "(endswith ''front'' ''left'' \<longleftrightarrow> endswith ''right'' ''left'')
   \<and> (startswith ''front'' ''mirrored'' \<longleftrightarrow> startswith ''right'' ''mirrored'')
   \<and> hrir Spherical Float32 3 zero_memory [((0, 0, 1), [1, 2], [3, 4])] ''front'' ''time'' None None
       = hrir Spherical Float32 3 zero_memory [((0, 0, 1), [1, 2], [3, 4])] ''right'' ''time'' None None
   \<and> startswith ''magnitudes'' ''magnitude''
   \<and> hrir Spherical Float32 3 zero_memory [((0, 0, 1), [1, 2], [3, 4])] ''left'' ''magnitudes'' None None
       = hrir Spherical Float32 3 zero_memory [((0, 0, 1), [1, 2], [3, 4])] ''left'' ''magnitude'' None None"
  using hrir_side_and_domain_dispatch [where side = "''front''" and side' = "''right''"
      and lay = Spherical and t = Float32 and q = 3 and uninit = zero_memory
      and sofa = "[((0, 0, 1), [1, 2], [3, 4])]" and domain = "''time''"
      and row_indices = None and column_indices = None]
    hrir_side_and_domain_dispatch [where side = "''left''" and side' = "''left''"
      and lay = Spherical and t = Float32 and q = 3 and uninit = zero_memory
      and sofa = "[((0, 0, 1), [1, 2], [3, 4])]" and domain = "''magnitudes''"
      and row_indices = None and column_indices = None]
  by (simp add: startswith_def endswith_def)

text \<open>
  C2 (as stated) fails: the unknown side \<open>front\<close> raises nothing, the right channel is
  returned.
\<close>

theorem hrir_unknown_side_accepted:
  "hrir Spherical Float32 3 zero_memory [((0, 0, 1), [1, 2], [3, 4])] ''front'' ''time'' None None
     = Inr \<lparr>shape = [2], elems = [Some (Re_val 3), Some (Re_val 4)]\<rparr>"
  by (simp add: hrir_eval)

text \<open>
  C6: what the code does on a grid with a single row angle and two column angles,
  mirrored. The row axis has been squeezed away when the flip is applied: the spherical
  layout swaps the two columns (the claim keeps the only row as it is), the interaural
  layout reverses the samples of each column (the claim swaps the columns).
\<close>

theorem hrir_mirror_after_squeeze:
  "hrir Spherical Float32 3 zero_memory
      [((0, - 30, 1), [1, 2], [5, 6]), ((0, 30, 1), [3, 4], [7, 8])]
      ''mirrored-left'' ''time'' None None
     = Inr \<lparr>shape = [2, 2],
            elems = [Some (Re_val 3), Some (Re_val 4), Some (Re_val 1), Some (Re_val 2)]\<rparr>
   \<and> hrir Interaural Float32 3 zero_memory
      [((0, - 30, 1), [1, 2], [5, 6]), ((0, 30, 1), [3, 4], [7, 8])]
      ''mirrored-left'' ''time'' None None
     = Inr \<lparr>shape = [2, 2],
            elems = [Some (Re_val 2), Some (Re_val 1), Some (Re_val 4), Some (Re_val 3)]\<rparr>"
  by (simp add: hrir_eval)

text \<open>
  C4: what the code does on a grid with two radii whose pole column 90 has data at the
  second of two rows only. The reconciler marks the other row present, but the source
  row it records is the position in the flattened (row, radius) array, 2, which is no
  row of the grid; the materializer fails with an index error instead of returning
  the replicated signal.
\<close>

theorem hrir_pole_two_radii:
  "map_sofa_position_order_to_matrix 3
      [(- 90, 0, 1), (- 90, 0, 2), (0, 0, 1), (0, 0, 2), (0, 90, 1), (0, 90, 2)]
     = Inr \<lparr>unique_row_angles = [- 90, 0], unique_column_angles = [0, 90],
            unique_radii = [1, 2],
            position_mask = [[[False, False], [False, False]], [[False, False], [False, False]]],
            position_map = [(0, 0, 0), (0, 0, 1), (1, 0, 0), (1, 0, 1), (1, 1, 0), (1, 1, 1)],
            single_start_mask = None, start_pole_idx = 0,
            single_end_mask = Some [True, True], end_pole_idx = 2\<rparr>
   \<and> hrir Spherical Float32 3 zero_memory
      [((- 90, 0, 1), [1, 2], [1, 2]), ((- 90, 0, 2), [3, 4], [3, 4]),
       ((0, 0, 1), [5, 6], [5, 6]), ((0, 0, 2), [7, 8], [7, 8]),
       ((0, 90, 1), [9, 10], [9, 10]), ((0, 90, 2), [11, 12], [11, 12])]
      ''left'' ''time'' None None
     = Inl IndexError"
  by (simp add: hrir_eval)

lemma select_cells_length:
  "select_cells row_indices column_indices R C a = Inr sel \<Longrightarrow>
     length sel = (case row_indices of None \<Rightarrow> R | Some is \<Rightarrow> length is)"
  by (auto simp: select_cells_def Let_def split: if_splits option.splits)

text \<open>
  C7 (as amended): for a side that is not mirrored, the shape of a result is the list
  of the lengths of the row, column, radius and signal (or bin) axes without those equal
  to 1: line 238 squeezes every axis of length 1, the signal axis like the others.
\<close>

theorem hrir_squeezes_every_axis:
  assumes grid: "map_sofa_position_order_to_matrix q (map fst file) = Inr g"
    and result: "hrir lay t q uninit file side domain row_indices column_indices = Inr a"
    and plain: "\<not> startswith side ''mirrored''"
  shows "shape a = filter (\<lambda>d. d \<noteq> 1)
      [case row_indices of None \<Rightarrow> length (unique_row_angles g) | Some is \<Rightarrow> length is,
       case column_indices of None \<Rightarrow> length (unique_column_angles g) | Some js \<Rightarrow> length js,
       length (unique_radii g),
       if domain = ''time''
       then length (hd (map (\<lambda>(p, left, right). if endswith side ''left'' then left else right) file))
       else length (hd (map (\<lambda>(p, left, right). if endswith side ''left'' then left else right) file))
              div 2 + 1]"
  using assms unfolding hrir_def Let_def
  by (auto simp: squeeze_def dest!: select_cells_length split: sum.splits option.splits if_splits)

theorem hrir_squeezes_every_axis_witness:
  "map_sofa_position_order_to_matrix 3 (map fst [((0, 0, 1), [1, 2], [3, 4]), ((90, 0, 1), [5, 6], [7, 8])])
     = Inr \<lparr>unique_row_angles = [0, 90], unique_column_angles = [0], unique_radii = [1],
            position_mask = [[[False]], [[False]]], position_map = [(0, 0, 0), (1, 0, 0)],
            single_start_mask = None, start_pole_idx = 0,
            single_end_mask = None, end_pole_idx = 0\<rparr>
   \<and> hrir Spherical Float32 3 zero_memory [((0, 0, 1), [1, 2], [3, 4]), ((90, 0, 1), [5, 6], [7, 8])]
         ''left'' ''time'' None None
       = Inr \<lparr>shape = [2, 2],
              elems = [Some (Re_val 1), Some (Re_val 2), Some (Re_val 5), Some (Re_val 6)]\<rparr>
   \<and> \<not> startswith ''left'' ''mirrored''"
  using hrir_squeezes_every_axis [of 3 "[((0, 0, 1), [1, 2], [3, 4]), ((90, 0, 1), [5, 6], [7, 8])]"
      "\<lparr>unique_row_angles = [0, 90], unique_column_angles = [0], unique_radii = [1],
            position_mask = [[[False]], [[False]]], position_map = [(0, 0, 0), (1, 0, 0)],
            single_start_mask = None, start_pole_idx = 0,
            single_end_mask = None, end_pole_idx = 0\<rparr>"
      Spherical Float32 zero_memory "''left''" "''time''" None None
      "\<lparr>shape = [2, 2],
              elems = [Some (Re_val 1), Some (Re_val 2), Some (Re_val 5), Some (Re_val 6)]\<rparr>"]
  by (simp add: hrir_eval)

text \<open>
  C7 (as stated) fails for impulse responses of one sample: with two rows, one column
  and one radius the result has shape (2), the signal axis is gone.
\<close>

theorem hrir_signal_axis_squeezed:
  "hrir Spherical Float32 3 zero_memory [((0, 0, 1), [7], [8]), ((90, 0, 1), [9], [10])]
      ''left'' ''time'' None None
     = Inr \<lparr>shape = [2], elems = [Some (Re_val 7), Some (Re_val 9)]\<rparr>"
  by (simp add: hrir_eval)











section \<open>Pole sharing with a single radius\<close>

lemma empty_matrix_wf: "wf_matrix R C K L (empty_matrix uninit R C K L)"
  by (simp add: wf_matrix_def wf_mask_def empty_matrix_def)

lemma put_cell_wf:
  assumes "wf_matrix R C K L m" "length (snd entry) = L"
  shows "wf_matrix R C K L (put_cell entry m)"
proof -
  obtain r c k x where entry: "entry = ((r, c, k), x)" by (cases entry) auto
  have eq: "put_cell entry m = update3 m r c k x" by (simp add: entry put_cell_def)
  have wf: "wf_mask R C K m" using assms(1) by (simp add: wf_matrix_def)
  have "length (update3 m r c k x ! r' ! c' ! k') = L" if "r' < R" "c' < C" "k' < K" for r' c' k'
    using update3_nth [OF wf that, of r c k x] assms that entry by (simp add: wf_matrix_def)
  then show ?thesis using update3_wf [OF wf] by (simp add: eq wf_matrix_def)
qed

lemma fold_put_cell_wf:
  assumes "wf_matrix R C K L m" "\<forall>e\<in>set es. length (snd e) = L"
  shows "wf_matrix R C K L (fold put_cell es m)"
  using assms by (induction es arbitrary: m) (simp_all add: put_cell_wf)

lemma scatter_wf:
  assumes "wf_matrix R C K L m" "\<forall>x\<in>set hrirs. length x = L"
  shows "wf_matrix R C K L (scatter pmap hrirs m)"
proof -
  have "\<forall>e\<in>set (zip pmap hrirs). length (snd e) = L"
    using assms(2) by (auto dest: set_zip_rightD)
  from fold_put_cell_wf [OF assms(1) this] show ?thesis by (simp add: scatter_def)
qed

lemma replicate_pole_one_radius:
  assumes wf: "wf_matrix R C 1 L m" and idx: "idx < R" and c: "c < C"
    and single: "single = None \<or> single = Some [b]"
  shows "\<exists>m'. replicate_pole single idx c L m = Inr m' \<and> wf_matrix R C 1 L m'
    \<and> (\<forall>r<R. \<forall>c'<C. m' ! r ! c' ! 0
          = (if c' = c \<and> single = Some [True] then m ! idx ! c ! 0 else m ! r ! c' ! 0))"
proof (cases single)
  case None
  then show ?thesis using wf idx by (simp add: replicate_pole_def wf_matrix_def wf_mask_def)
next
  case (Some s)
  with single have s: "s = [b]" by simp
  define m' where "m' = map (\<lambda>row. row[c := [if b then m ! idx ! c ! 0 else row ! c ! 0]]) m"
  have len: "length m = R" and rows: "\<And>r. r < R \<Longrightarrow> length (m ! r) = C"
    and cols: "\<And>r c'. r < R \<Longrightarrow> c' < C \<Longrightarrow> length (m ! r ! c') = 1"
    and cells: "\<And>r c'. r < R \<Longrightarrow> c' < C \<Longrightarrow> length (m ! r ! c' ! 0) = L"
    using wf by (simp_all add: wf_matrix_def wf_mask_def)
  have full: "map ((!) (m ! r ! c ! 0)) [0..<L] = m ! r ! c ! 0" if "r < R" for r
  proof -
    have "map ((!) (m ! r ! c ! 0)) [0..<length (m ! r ! c ! 0)] = m ! r ! c ! 0"
      by (rule map_nth)
    then show ?thesis using cells [OF that c] by simp
  qed
  have "map (\<lambda>row. row[c := map (\<lambda>k. map (\<lambda>l. if s ! (if length s = 1 then 0 else l)
                                       then m ! idx ! c ! k ! l else row ! c ! k ! l) [0..<L])
                      [0..<length s]]) m = m'"
    unfolding m'_def
  proof (rule map_cong [OF refl])
    fix row assume "row \<in> set m"
    then obtain r where r: "r < R" "row = m ! r" using len by (auto simp: in_set_conv_nth)
    show "row[c := map (\<lambda>k. map (\<lambda>l. if s ! (if length s = 1 then 0 else l)
                                       then m ! idx ! c ! k ! l else row ! c ! k ! l) [0..<L])
                      [0..<length s]]
        = row[c := [if b then m ! idx ! c ! 0 else row ! c ! 0]]"
      using full [OF r(1)] full [OF idx] by (cases b) (simp_all add: s r(2))
  qed
  then have result: "replicate_pole single idx c L m = Inr m'"
    using Some s idx len by (simp add: replicate_pole_def Let_def)
  have row': "m' ! r = (m ! r)[c := [if b then m ! idx ! c ! 0 else m ! r ! c ! 0]]"
    if "r < R" for r
    using that len by (simp add: m'_def)
  have nth': "m' ! r ! c' = (if c' = c then [if b then m ! idx ! c ! 0 else m ! r ! c ! 0]
      else m ! r ! c')" if "r < R" "c' < C" for r c'
    using row' [OF that(1)] rows [OF that(1)] that(2) by (cases "c' = c") simp_all
  have "length m' = R" using len by (simp add: m'_def)
  moreover have "length (m' ! r) = C" if "r < R" for r
    using row' [OF that] rows [OF that] by simp
  moreover have "length (m' ! r ! c') = 1" if "r < R" "c' < C" for r c'
    using nth' [OF that] cols [OF that] by simp
  moreover have "length (m' ! r ! c' ! 0) = L" if "r < R" "c' < C" for r c'
    using nth' [OF that] cells [OF that] cells [OF idx c] cells [OF that(1) c] by simp
  ultimately have wf': "wf_matrix R C 1 L m'"
    by (simp add: wf_matrix_def wf_mask_def)
  have vals: "\<forall>r<R. \<forall>c'<C. m' ! r ! c' ! 0
      = (if c' = c \<and> single = Some [True] then m ! idx ! c ! 0 else m ! r ! c' ! 0)"
  proof (intro allI impI)
    fix r c' assume "r < R" "c' < C"
    from nth' [OF this] show "m' ! r ! c' ! 0
        = (if c' = c \<and> single = Some [True] then m ! idx ! c ! 0 else m ! r ! c' ! 0)"
      by (cases b) (simp_all add: Some s)
  qed
  show ?thesis
  proof (intro exI conjI)
    show "replicate_pole single idx c L m = Inr m'" by (fact result)
    show "wf_matrix R C 1 L m'" by (fact wf')
    show "\<forall>r<R. \<forall>c'<C. m' ! r ! c' ! 0
        = (if c' = c \<and> single = Some [True] then m ! idx ! c ! 0 else m ! r ! c' ! 0)"
      by (fact vals)
  qed
qed

lemma concat_singletons:
  "\<forall>xs\<in>set xss. length xs = 1 \<Longrightarrow> concat xss = map (\<lambda>xs. xs ! 0) xss"
proof (induction xss)
  case Nil
  then show ?case by simp
next
  case (Cons xs xss)
  then have "length xs = 1" by simp
  then obtain x where "xs = [x]" by (cases xs) auto
  with Cons show ?case by simp
qed

lemma argmax_unique:
  assumes "r0 < length bs" "bs ! r0" "\<forall>r<length bs. bs ! r \<longrightarrow> r = r0"
  shows "argmax bs = r0"
proof -
  have "bs ! r0 \<in> set bs" using assms(1) by (rule nth_mem)
  then have "\<exists>b\<in>set bs. id b" using assms(2) by (intro bexI [of _ "bs ! r0"]) simp_all
  then have "list_ex id bs" by (simp only: list_ex_iff)
  from argmax_found [OF this] have "argmax bs < length bs" "bs ! argmax bs" by simp_all
  then show ?thesis using assms(3) [rule_format, of "argmax bs"] by simp
qed

lemma pole_idx_one_radius:
  assumes wf: "wf_mask R C 1 m" and c: "c < C" and r0: "r0 < R" "\<not> m ! r0 ! c ! 0"
    and unique: "\<forall>r<R. \<not> m ! r ! c ! 0 \<longrightarrow> r = r0"
  shows "pole_idx (mask_column m c) = r0"
proof -
  have len: "length m = R" using wf by (simp add: wf_mask_def)
  have "\<forall>xs\<in>set (map (map Not) (mask_column m c)). length xs = 1"
    using wf c by (auto simp: mask_column_def wf_mask_def in_set_conv_nth)
  from concat_singletons [OF this]
  have bs: "concat (map (map Not) (mask_column m c)) = map (\<lambda>row. map Not (row ! c) ! 0) m"
    by (simp add: mask_column_def o_def)
  have nth: "map (\<lambda>row. map Not (row ! c) ! 0) m ! r = (\<not> m ! r ! c ! 0)" if "r < R" for r
    using that wf c len by (simp add: wf_mask_def)
  show ?thesis
    unfolding pole_idx_def bs
  proof (rule argmax_unique)
    show "r0 < length (map (\<lambda>row. map Not (row ! c) ! 0) m)" using r0(1) len by simp
    show "map (\<lambda>row. map Not (row ! c) ! 0) m ! r0" using nth [OF r0(1)] r0(2) by simp
    show "\<forall>r<length (map (\<lambda>row. map Not (row ! c) ! 0) m).
        map (\<lambda>row. map Not (row ! c) ! 0) m ! r \<longrightarrow> r = r0"
    proof (intro allI impI)
      fix r assume r: "r < length (map (\<lambda>row. map Not (row ! c) ! 0) m)"
        and True: "map (\<lambda>row. map Not (row ! c) ! 0) m ! r"
      from r have "r < R" using len by simp
      with True nth [of r] unique show "r = r0" by simp
    qed
  qed
qed

lemma filter_upt_unique:
  assumes "r0 < R" "P r0" "\<forall>r. P r \<longrightarrow> r = r0"
  shows "filter P [0..<R] = [r0]"
proof -
  have "P r = (r = r0)" for r using assms(2,3) by blast
  then have "P = (\<lambda>r. r = r0)" by (intro ext)
  then have "filter P [0..<R] = filter (\<lambda>r. r = r0) [0..<R]"
    by (rule arg_cong)
  also have "\<dots> = [r0]"
    using assms(1) by (induction R) auto
  finally show ?thesis .
qed

text \<open>
  Pole sharing on a grid with a single radius: when the last column angle is close to 90
  and exactly one row \<open>r0\<close> is occupied at that column, the mask is false in every row
  of the column, the recorded source row is \<open>r0\<close>, and after both replications of lines
  207--208 every row of the column holds what the source row holds there.
\<close>

lemma pole_sharing_one_radius:
  assumes grid: "map_sofa_position_order_to_matrix q positions = Inr g"
    and one_radius: "length (unique_radii g) = 1"
    and pole: "isclose (last (unique_column_angles g)) 90"
    and source: "(r0, length (unique_column_angles g) - 1, 0) \<in> set (position_map g)"
    and only: "\<forall>r. (r, length (unique_column_angles g) - 1, 0) \<in> set (position_map g) \<longrightarrow> r = r0"
    and lens: "\<forall>x\<in>set hrirs. length x = L"
  shows "(\<forall>r<length (unique_row_angles g).
            \<not> position_mask g ! r ! (length (unique_column_angles g) - 1) ! 0)
    \<and> end_pole_idx g = r0
    \<and> (\<exists>m1 m2.
          replicate_pole (single_start_mask g) (start_pole_idx g) 0 L
              (scatter (position_map g) hrirs
                 (empty_matrix uninit (length (unique_row_angles g))
                    (length (unique_column_angles g)) 1 L)) = Inr m1
          \<and> replicate_pole (single_end_mask g) (end_pole_idx g)
              (length (unique_column_angles g) - 1) L m1 = Inr m2
          \<and> (\<forall>r<length (unique_row_angles g).
                m2 ! r ! (length (unique_column_angles g) - 1) ! 0
                  = scatter (position_map g) hrirs
                      (empty_matrix uninit (length (unique_row_angles g))
                         (length (unique_column_angles g)) 1 L)
                    ! r0 ! (length (unique_column_angles g) - 1) ! 0))"
proof -
  define R where "R = length (unique_row_angles g)"
  define C where "C = length (unique_column_angles g)"
  define pmap where "pmap = position_map g"
  define m0 where "m0 = scatter pmap hrirs (empty_matrix uninit R C 1 L)"
  note facts = reconciler_grid [OF grid]
  have cells: "\<forall>idx<length positions. \<exists>r c k. pmap ! idx = (r, c, k) \<and> r < R \<and> c < C"
  proof (intro allI impI)
    fix idx assume "idx < length positions"
    with facts(6) obtain r c k where "position_map g ! idx = (r, c, k)"
      "r < length (unique_row_angles g)" "c < length (unique_column_angles g)"
      by blast
    then show "\<exists>r c k. pmap ! idx = (r, c, k) \<and> r < R \<and> c < C"
      by (simp add: pmap_def R_def C_def)
  qed
  have len_pmap: "length pmap = length positions"
    using facts(5) by (simp add: pmap_def)
  have mask: "(\<not> position_mask g ! r ! c ! 0) =
          ((r, c, 0) \<in> set pmap
           \<or> (c = C - 1 \<and> (\<exists>s. single_end_mask g = Some s \<and> s ! 0))
           \<or> (c = 0 \<and> (\<exists>s. single_start_mask g = Some s \<and> s ! 0)))"
    if "r < R" "c < C" for r c
    using facts(7) that one_radius by (simp add: pmap_def R_def C_def)
  have single_end: "single_end_mask g
      = Some [length (filter (\<lambda>r. (r, C - 1, 0) \<in> set pmap) [0..<R]) = 1]"
    using facts(8) pole one_radius by (simp add: pmap_def R_def C_def)
  have single_start: "single_start_mask g = (if isclose (hd (unique_column_angles g)) (- 90)
        then Some [length (filter (\<lambda>r. (r, 0, 0) \<in> set pmap) [0..<R]) = 1] else None)"
    using facts(9) one_radius by (simp add: pmap_def R_def C_def)
  have end_idx: "end_pole_idx g = pole_idx (mask_column (clear_cells pmap R C 1) (C - 1))"
    using facts(10) pole one_radius by (simp add: pmap_def R_def C_def)
  have pos: "0 < R" "0 < C"
    using facts(11,12) by (simp_all add: R_def C_def)
  have start_idx: "start_pole_idx g < R"
    using facts(14) one_radius by (simp add: R_def)
  \<comment> \<open>the source row is a row of the grid\<close>
  from source obtain idx where "idx < length pmap" "pmap ! idx = (r0, C - 1, 0)"
    unfolding pmap_def C_def by (auto simp: in_set_conv_nth)
  with cells len_pmap have r0: "r0 < R" by (metis prod.inject)
  have src: "(r0, C - 1, 0) \<in> set pmap"
    using source by (simp add: pmap_def C_def)
  have uniq: "\<forall>r. (r, C - 1, 0) \<in> set pmap \<longrightarrow> r = r0"
    using only unfolding pmap_def C_def .
  \<comment> \<open>the pole mask and the mask of the grid\<close>
  have "filter (\<lambda>r. (r, C - 1, 0) \<in> set pmap) [0..<R] = [r0]"
    by (rule filter_upt_unique) (fact r0 src uniq)+
  then have end_mask: "single_end_mask g = Some [True]"
    using single_end by simp
  have part1: "\<forall>r<R. \<not> position_mask g ! r ! (C - 1) ! 0"
  proof (intro allI impI)
    fix r assume "r < R"
    from mask [OF this, of "C - 1"] end_mask pos show "\<not> position_mask g ! r ! (C - 1) ! 0"
      by simp
  qed
  \<comment> \<open>the recorded source row\<close>
  have wf0: "wf_mask R C 1 (clear_cells pmap R C 1)" by (rule clear_cells_props(1))
  have "pole_idx (mask_column (clear_cells pmap R C 1) (C - 1)) = r0"
  proof (rule pole_idx_one_radius [OF wf0 _ r0])
    show "C - 1 < C" using pos by simp
    show "\<not> clear_cells pmap R C 1 ! r0 ! (C - 1) ! 0"
      using clear_cells_props(2) [of r0 R "C - 1" C 0 1 pmap] r0 pos src by simp
    show "\<forall>r<R. \<not> clear_cells pmap R C 1 ! r ! (C - 1) ! 0 \<longrightarrow> r = r0"
    proof (intro allI impI)
      fix r assume "r < R" "\<not> clear_cells pmap R C 1 ! r ! (C - 1) ! 0"
      then have "(r, C - 1, 0) \<in> set pmap"
        using clear_cells_props(2) [of r R "C - 1" C 0 1 pmap] pos by simp
      with uniq show "r = r0" by blast
    qed
  qed
  then have part2: "end_pole_idx g = r0" using end_idx by simp
  \<comment> \<open>the matrix\<close>
  have wfm0: "wf_matrix R C 1 L m0"
    unfolding m0_def by (rule scatter_wf [OF empty_matrix_wf lens])
  have start_cases: "single_start_mask g = None
      \<or> single_start_mask g
          = Some [length (filter (\<lambda>r. (r, 0, 0) \<in> set pmap) [0..<R]) = 1]"
    using single_start by simp
  from replicate_pole_one_radius [OF wfm0 start_idx pos(2) start_cases]
  obtain m1 where m1: "replicate_pole (single_start_mask g) (start_pole_idx g) 0 L m0 = Inr m1"
    and wfm1: "wf_matrix R C 1 L m1"
    and v1: "\<forall>r<R. \<forall>c'<C. m1 ! r ! c' ! 0
          = (if c' = 0 \<and> single_start_mask g = Some [True]
             then m0 ! start_pole_idx g ! 0 ! 0 else m0 ! r ! c' ! 0)"
    by blast
  have keep: "m1 ! r ! (C - 1) ! 0 = m0 ! r ! (C - 1) ! 0" if "r < R" for r
  proof (cases "C = 1")
    case True
    obtain x where cols: "unique_column_angles g = [x]"
      using True by (cases "unique_column_angles g") (simp_all add: C_def)
    then have "\<not> isclose (hd (unique_column_angles g)) (- 90)"
      using pole not_both_poles [of x] by simp
    then have "single_start_mask g = None" using single_start by simp
    then show ?thesis using v1 that pos by simp
  next
    case False
    then have "C - 1 \<noteq> 0" "C - 1 < C" using pos by simp_all
    then show ?thesis using v1 that by simp
  qed
  have end_cases: "single_end_mask g = None \<or> single_end_mask g = Some [True]"
    using end_mask by simp
  have c_last: "C - 1 < C" using pos by simp
  from replicate_pole_one_radius [OF wfm1 r0 c_last end_cases]
  obtain m2 where m2: "replicate_pole (single_end_mask g) r0 (C - 1) L m1 = Inr m2"
    and v2: "\<forall>r<R. \<forall>c'<C. m2 ! r ! c' ! 0
          = (if c' = C - 1 \<and> single_end_mask g = Some [True]
             then m1 ! r0 ! (C - 1) ! 0 else m1 ! r ! c' ! 0)"
    by blast
  have part3: "\<forall>r<R. m2 ! r ! (C - 1) ! 0 = m0 ! r0 ! (C - 1) ! 0"
    using v2 end_mask c_last keep [OF r0] by simp
  have m2': "replicate_pole (single_end_mask g) (end_pole_idx g) (C - 1) L m1 = Inr m2"
    using m2 part2 by simp
  have "\<exists>m1 m2. replicate_pole (single_start_mask g) (start_pole_idx g) 0 L m0 = Inr m1
      \<and> replicate_pole (single_end_mask g) (end_pole_idx g) (C - 1) L m1 = Inr m2
      \<and> (\<forall>r<R. m2 ! r ! (C - 1) ! 0 = m0 ! r0 ! (C - 1) ! 0)"
    using m1 m2' part3 by blast
  with part1 part2 show ?thesis
    unfolding R_def C_def pmap_def m0_def by (intro conjI)
qed

text \<open>
  Examples where the materializer does what is expected of it: a pole shared on a grid
  with one radius; the boundary row -180 held in place while the other rows are
  reversed; the columns of an interaural grid reversed. And an unmatched domain, which
  fails at the cast of line 238 rather than with the error built at line 235.
\<close>

lemma hrir_pole_single_radius_example:
  "hrir Spherical Float32 3 zero_memory
      [((- 90, 0, 1), [1, 2], [1, 2]), ((0, 0, 1), [5, 6], [5, 6]), ((0, 90, 1), [9, 10], [9, 10])]
      ''left'' ''time'' None None
     = Inr \<lparr>shape = [2, 2, 2],
            elems = [Some (Re_val 1), Some (Re_val 2), Some (Re_val 9), Some (Re_val 10),
                     Some (Re_val 5), Some (Re_val 6), Some (Re_val 9), Some (Re_val 10)]\<rparr>"
  by (simp add: hrir_eval)

lemma hrir_mirror_boundary_row_example:
  "hrir Spherical Float32 3 zero_memory
      [((180, 0, 1), [1, 2], [0, 0]), ((- 90, 0, 1), [3, 4], [0, 0]),
       ((0, 0, 1), [5, 6], [0, 0]), ((90, 0, 1), [7, 8], [0, 0])]
      ''mirrored-left'' ''time'' None None
     = Inr \<lparr>shape = [4, 2],
            elems = [Some (Re_val 1), Some (Re_val 2), Some (Re_val 7), Some (Re_val 8),
                     Some (Re_val 5), Some (Re_val 6), Some (Re_val 3), Some (Re_val 4)]\<rparr>"
  by (simp add: hrir_eval)

lemma hrir_mirror_interaural_example:
  "hrir Interaural Float32 3 zero_memory
      [((0, - 30, 1), [1, 2], [0, 0]), ((0, 30, 1), [3, 4], [0, 0]),
       ((90, - 30, 1), [5, 6], [0, 0]), ((90, 30, 1), [7, 8], [0, 0])]
      ''mirrored-left'' ''time'' None None
     = Inr \<lparr>shape = [2, 2, 2],
            elems = [Some (Re_val 3), Some (Re_val 4), Some (Re_val 1), Some (Re_val 2),
                     Some (Re_val 7), Some (Re_val 8), Some (Re_val 5), Some (Re_val 6)]\<rparr>"
  by (simp add: hrir_eval)

lemma hrir_unknown_domain_example:
  "hrir Spherical Float32 3 zero_memory [((0, 0, 1), [1, 2], [3, 4])] ''left'' ''spectrum'' None None
     = Inl AttributeError"
  by (simp add: hrir_eval rfft_def)

end
